theory Spec2Isabelle
  imports Main "HOL-Library.Monad_Syntax"
begin

section \<open>net123\_exec: HTTP streaming through an external downloader\<close>

text \<open>
  A shallow embedding of \<^verbatim>\<open>src/net123_exec.c\<close>. C strings are \<open>string\<close>s, a
  \<^verbatim>\<open>char *\<close> that may be \<^verbatim>\<open>NULL\<close> is an option or a \<open>slot\<close>, and every call
  whose result the operating system decides (\<^verbatim>\<open>malloc\<close>, \<^verbatim>\<open>fork\<close>, \<^verbatim>\<open>pipe\<close>,
  \<^verbatim>\<open>waitpid\<close>, \<^verbatim>\<open>read\<close>) takes that result from an explicit environment.
\<close>

subsection \<open>Compile-time configuration and the global parameter struct\<close>

text \<open>
  \<^verbatim>\<open>DEBUG\<close>, \<^verbatim>\<open>PACKAGE_NAME\<close> and \<^verbatim>\<open>PACKAGE_VERSION\<close> come from \<^verbatim>\<open>config.h\<close>, which
  is not part of the source at hand: they are parameters of the model.
\<close>

record build =
  DEBUG :: bool
  PACKAGE_NAME :: string
  PACKAGE_VERSION :: string

text \<open>The fields of the global \<^verbatim>\<open>param\<close> that this file reads.\<close>

record params =
  network_backend :: string
  httpauth :: "string option"
  verbose :: int

subsection \<open>Allocation\<close>

text \<open>
  The heap is the list of outcomes of the allocation requests still to come, \<open>True\<close> for
  a request that is served; once the list is used up every request is served.
\<close>

type_synonym heap = "bool list"

fun malloc :: "heap \<Rightarrow> bool \<times> heap" where
  "malloc [] = (True, [])"
| "malloc (ok # h) = (ok, h)"

definition no_failure :: "heap \<Rightarrow> bool" where
  "no_failure h = list_all (\<lambda>ok. ok) h"

text \<open>
  One element of a \<^verbatim>\<open>char **\<close> block obtained from \<^verbatim>\<open>malloc\<close>: not written yet,
  \<^verbatim>\<open>NULL\<close>, or a pointer to a string.
\<close>

datatype slot = Uninit | Null | Str string

text \<open>
  \<^verbatim>\<open>compat_strdup\<close> belongs to the compat layer of the program and is not part of the
  source at hand; it is the usual \<^verbatim>\<open>strdup\<close>: a fresh copy, or \<^verbatim>\<open>NULL\<close> when the
  allocation fails.
\<close>

definition compat_strdup :: "string \<Rightarrow> heap \<Rightarrow> slot \<times> heap" where
  "compat_strdup src h = (case malloc h of (ok, h') \<Rightarrow> (if ok then Str src else Null, h'))"

definition catstr :: "string \<Rightarrow> string \<Rightarrow> heap \<Rightarrow> slot \<times> heap" where
  "catstr par val h = (case malloc h of (ok, h') \<Rightarrow> (if ok then Str (par @ val) else Null, h'))"

text \<open>\<^verbatim>\<open>strchr\<close>: the offset of the first occurrence of a character, if there is one.\<close>

fun strchr :: "string \<Rightarrow> char \<Rightarrow> nat option" where
  "strchr [] c = None"
| "strchr (x # xs) c = (if x = c then Some 0 else map_option Suc (strchr xs c))"

subsection \<open>Machine integers\<close>

text \<open>
  The builders count in \<^verbatim>\<open>size_t\<close> and in \<^verbatim>\<open>int\<close>. The model takes the usual 64-bit
  data model: \<^verbatim>\<open>size_t\<close> has 64 bits and wraps around, \<^verbatim>\<open>int\<close> has 32 bits, and a
  pointer occupies 8 bytes. A \<^verbatim>\<open>size_t\<close> converted to \<^verbatim>\<open>int\<close> keeps its low 32 bits,
  read in two's complement; an \<^verbatim>\<open>int\<close> converted to \<^verbatim>\<open>size_t\<close> is taken modulo
  \<open>2 ^ 64\<close>; an addition of \<^verbatim>\<open>int\<close>s that leaves the range of \<^verbatim>\<open>int\<close> is undefined
  behaviour, which is the result \<open>None\<close>.
\<close>

definition INT_MAX :: int where
  "INT_MAX = 2 ^ 31 - 1"

definition INT_MIN :: int where
  "INT_MIN = - (2 ^ 31)"

definition size_t :: "int \<Rightarrow> nat" where
  "size_t i = nat (i mod 2 ^ 64)"

definition int_of_size_t :: "nat \<Rightarrow> int" where
  "int_of_size_t n = (let m = int n mod 2 ^ 32 in if m \<le> INT_MAX then m else m - 2 ^ 32)"

definition int_add :: "int \<Rightarrow> int \<Rightarrow> int option" where
  "int_add a b = (if INT_MIN \<le> a + b \<and> a + b \<le> INT_MAX then Some (a + b) else None)"

text \<open>
  The number of pointers that fit the block of \<^verbatim>\<open>malloc(sizeof(char*)*n)\<close> for an
  \<^verbatim>\<open>int\<close> \<open>n\<close>: the product is computed in \<^verbatim>\<open>size_t\<close>.
\<close>

definition block_slots :: "int \<Rightarrow> nat" where
  "block_slots n = (8 * size_t n) mod 2 ^ 64 div 8"

subsection \<open>The argument builders\<close>

text \<open>
  A builder returns no vector when the allocation of the block fails; \<open>UndefinedBehaviour\<close>
  stands for a run that overflows an \<^verbatim>\<open>int\<close> or stores outside the block.
\<close>

datatype error = AllocFailed | UndefinedBehaviour

text \<open>
  The block \<open>argv\<close> under construction, the write index \<^verbatim>\<open>int an\<close> and the heap. A store
  \<^verbatim>\<open>argv[an++] = v\<close> outside the block, or one whose increment overflows, is undefined
  behaviour in C; the model makes it the result \<open>None\<close>.
\<close>

record bstate =
  argv :: "slot list"
  an :: int
  heap :: heap

definition put :: "slot \<Rightarrow> bstate \<Rightarrow> bstate option" where
  "put v s =
     (if 0 \<le> an s \<and> nat (an s) < length (argv s) \<and> an s < INT_MAX
      then Some (s\<lparr>argv := (argv s)[nat (an s) := v], an := an s + 1\<rparr>)
      else None)"

definition put_dup :: "string \<Rightarrow> bstate \<Rightarrow> bstate option" where
  "put_dup src s = (case compat_strdup src (heap s) of (v, h) \<Rightarrow> put v (s\<lparr>heap := h\<rparr>))"

definition put_cat :: "string \<Rightarrow> string \<Rightarrow> bstate \<Rightarrow> bstate option" where
  "put_cat par val s = (case catstr par val (heap s) of (v, h) \<Rightarrow> put v (s\<lparr>heap := h\<rparr>))"

text \<open>\<^verbatim>\<open>for(...) argv[an] = compat_strdup(base_args[an]);\<close>\<close>

fun put_dups :: "string list \<Rightarrow> bstate \<Rightarrow> bstate option" where
  "put_dups [] s = Some s"
| "put_dups (x # xs) s = put_dup x s \<bind> put_dups xs"

text \<open>\<^verbatim>\<open>for(...) argv[an++] = catstr("--header=", client_head[ch]);\<close>\<close>

fun put_cats :: "string \<Rightarrow> string list \<Rightarrow> bstate \<Rightarrow> bstate option" where
  "put_cats par [] s = Some s"
| "put_cats par (x # xs) s = put_cat par x s \<bind> put_cats par xs"

text \<open>The loop of \<^verbatim>\<open>curl_argv\<close>, which stores two entries for each header.\<close>

fun put_headers :: "string list \<Rightarrow> bstate \<Rightarrow> bstate option" where
  "put_headers [] s = Some s"
| "put_headers (x # xs) s = put_dup ''--header'' s \<bind> put_dup x \<bind> put_headers xs"

text \<open>
  \<^verbatim>\<open>while(client_head && client_head[cheads]){ ++cheads; }\<close>: the header array may be a
  null pointer, which counts as no header.
\<close>

definition heads :: "string list option \<Rightarrow> string list" where
  "heads client_head = (case client_head of None \<Rightarrow> [] | Some hs \<Rightarrow> hs)"

definition wget_base_args :: "build \<Rightarrow> string list" where
  "wget_base_args cfg =
     [''wget'', ''--output-document=-''] @ (if DEBUG cfg then [] else [''--quiet''])
       @ [''--save-headers'']"

definition curl_base_args :: "build \<Rightarrow> string list" where
  "curl_base_args cfg =
     [''curl''] @ (if DEBUG cfg then [''--verbose''] else [''--silent'', ''--show-error''])
       @ [''--dump-header'', ''-'']"

text \<open>
  Lines 103 to 121 of \<^verbatim>\<open>wget_argv\<close>: the argument count \<^verbatim>\<open>int argc\<close> (\<open>None\<close> when
  \<^verbatim>\<open>argc += 2\<close> overflows), the user and the password, and the heap left after the copy
  of the credential. The sum is computed in \<^verbatim>\<open>size_t\<close> and then converted.
\<close>

definition wget_plan ::
  "build \<Rightarrow> params \<Rightarrow> string list option \<Rightarrow> heap
     \<Rightarrow> int option \<times> string option \<times> string option \<times> heap"
where
  "wget_plan cfg param client_head h =
     (let cheads = length (heads client_head);
          argc = int_of_size_t ((length (wget_base_args cfg) + 1 + cheads + 1 + 1) mod 2 ^ 64);
          (auth, h1) = (case httpauth param of
                          None \<Rightarrow> (Null, h)
                        | Some a \<Rightarrow> compat_strdup a h)
      in case auth of
           Str a \<Rightarrow>
             (case strchr a CHR '':'' of
                Some sep \<Rightarrow> (int_add argc 2, Some (take sep a), Some (drop (Suc sep) a), h1)
              | None \<Rightarrow> (Some argc, None, None, h1))
         | _ \<Rightarrow> (Some argc, None, None, h1))"

definition wget_argv ::
  "build \<Rightarrow> params \<Rightarrow> string \<Rightarrow> string list option \<Rightarrow> heap \<Rightarrow> error + slot list"
where
  "wget_argv cfg param url client_head h =
     (case wget_plan cfg param client_head h of (argc, user, password, h1) \<Rightarrow>
      case argc \<bind> (\<lambda>n. int_add n 1) of
        None \<Rightarrow> Inl UndefinedBehaviour
      | Some slots \<Rightarrow>
        (case malloc h1 of (ok, h2) \<Rightarrow>
           if \<not> ok then Inl AllocFailed
           else
             (case
                put_dups (wget_base_args cfg)
                  \<lparr>argv = replicate (block_slots slots) Uninit, an = 0, heap = h2\<rparr>
                \<bind> put_dup (''--user-agent='' @ PACKAGE_NAME cfg @ ''/'' @ PACKAGE_VERSION cfg)
                \<bind> put_cats ''--header='' (heads client_head)
                \<bind> (\<lambda>s. case user of None \<Rightarrow> Some s | Some u \<Rightarrow> put_cat ''--user='' u s)
                \<bind> (\<lambda>s. case password of None \<Rightarrow> Some s | Some p \<Rightarrow> put_cat ''--password='' p s)
                \<bind> put_dup url
                \<bind> put Null
              of None \<Rightarrow> Inl UndefinedBehaviour
               | Some s \<Rightarrow> Inr (argv s))))"

text \<open>Lines 157 to 164 of \<^verbatim>\<open>curl_argv\<close>, in the same way.\<close>

definition curl_plan ::
  "build \<Rightarrow> params \<Rightarrow> string list option \<Rightarrow> heap \<Rightarrow> int option \<times> slot \<times> heap"
where
  "curl_plan cfg param client_head h =
     (let cheads = length (heads client_head);
          argc = int_of_size_t
                   ((length (curl_base_args cfg) + 2 + 2 * cheads + 1 + 1) mod 2 ^ 64);
          (auth, h1) = (case httpauth param of
                          None \<Rightarrow> (Null, h)
                        | Some a \<Rightarrow> compat_strdup a h)
      in case auth of
           Str a \<Rightarrow> (int_add argc 2, auth, h1)
         | _ \<Rightarrow> (Some argc, auth, h1))"

definition curl_argv ::
  "build \<Rightarrow> params \<Rightarrow> string \<Rightarrow> string list option \<Rightarrow> heap \<Rightarrow> error + slot list"
where
  "curl_argv cfg param url client_head h =
     (case curl_plan cfg param client_head h of (argc, auth, h1) \<Rightarrow>
      case argc \<bind> (\<lambda>n. int_add n 1) of
        None \<Rightarrow> Inl UndefinedBehaviour
      | Some slots \<Rightarrow>
        (case malloc h1 of (ok, h2) \<Rightarrow>
           if \<not> ok then Inl AllocFailed
           else
             (case
                put_dups (curl_base_args cfg)
                  \<lparr>argv = replicate (block_slots slots) Uninit, an = 0, heap = h2\<rparr>
                \<bind> put_dup ''--user-agent''
                \<bind> put_dup (PACKAGE_NAME cfg @ ''/'' @ PACKAGE_VERSION cfg)
                \<bind> put_headers (heads client_head)
                \<bind> (\<lambda>s. case auth of
                            Str a \<Rightarrow> put_dup ''--user'' s \<bind> put auth
                          | _ \<Rightarrow> Some s)
                \<bind> put_dup url
                \<bind> put Null
              of None \<Rightarrow> Inl UndefinedBehaviour
               | Some s \<Rightarrow> Inr (argv s))))"

text \<open>The arguments that \<^verbatim>\<open>execvp\<close> sees: the strings before the first null pointer.\<close>

fun c_args :: "slot list \<Rightarrow> string list" where
  "c_args (Str x # v) = x # c_args v"
| "c_args v = []"

subsection \<open>Processes\<close>

text \<open>
  How a child process ends: \<^verbatim>\<open>wait\<close> reports either a normal exit with a code or a
  termination by a signal.
\<close>

datatype wstatus = Exited nat | Signaled nat

fun WIFEXITED :: "wstatus \<Rightarrow> bool" where
  "WIFEXITED (Exited n) = True"
| "WIFEXITED (Signaled n) = False"

text \<open>\<^verbatim>\<open>WEXITSTATUS\<close> is read only after \<^verbatim>\<open>WIFEXITED\<close> has held.\<close>

fun WEXITSTATUS :: "wstatus \<Rightarrow> nat" where
  "WEXITSTATUS (Exited n) = n"
| "WEXITSTATUS (Signaled n) = 0"

text \<open>
  \<^verbatim>\<open>fork\<close> returns in two processes. A function that forks is modelled in the process that
  runs it: its result is \<open>Ret\<close> of the value it returns, or \<open>Child\<close> when this process is
  the forked child, which never returns to the caller: it replaces its image by a program
  (that later ends with some status), or it exits. \<open>Undefined\<close> stands for a child
  whose behaviour C leaves undefined.
\<close>

datatype child_end = Image "string list" wstatus | Exit nat | Undefined

datatype 'a ret = Ret 'a | Child child_end

fun status_of :: "child_end \<Rightarrow> wstatus" where
  "status_of (Image args st) = st"
| "status_of (Exit n) = Exited n"
| "status_of Undefined = Signaled 11"

datatype signal = SIGTERM | SIGKILL

text \<open>
  The messages of \<^verbatim>\<open>merror\<close> and the notes printed at \<^verbatim>\<open>param.verbose > 1\<close>; the text
  of \<^verbatim>\<open>strerror(errno)\<close> is left out.
\<close>

datatype message =
    Invalid_backend string
  | Pipe_failed
  | Fork_failed
  | Wait_failed
  | Note_started int
  | Note_finished int

text \<open>
  The calls a process makes, as far as the properties below speak of them. \<open>Probe av\<close>
  marks an entry into \<^verbatim>\<open>check_program\<close> with the command \<open>av\<close>; \<open>Fork p\<close> is a call of
  \<^verbatim>\<open>fork\<close> that returned \<open>p\<close>; \<open>Waitpid p\<close> is a blocking \<^verbatim>\<open>waitpid\<close> (options 0)
  for the process \<open>p\<close>; \<open>Malloc\<close> and \<open>Free\<close> concern the storage of the handle.
\<close>

datatype event =
    Probe "string list"
  | Fork int
  | Waitpid int
  | Malloc
  | Free
  | Pipe
  | Close int
  | Kill int signal
  | Read int
  | Log message

text \<open>
  The state of the process: the two capability flags (\<^verbatim>\<open>static int got_curl\<close>,
  \<^verbatim>\<open>got_wget\<close>: negative for not checked, 0 for absent, 1 for present), the descriptors
  it holds open, and the calls it has made so far, oldest first.
\<close>

record world =
  got_curl :: int
  got_wget :: int
  fds :: "int set"
  trace :: "event list"

definition emit :: "event \<Rightarrow> world \<Rightarrow> world" where
  "emit ev w = w\<lparr>trace := trace w @ [ev]\<rparr>"

definition initial_world :: world where
  "initial_world = \<lparr>got_curl = - 1, got_wget = - 1, fds = {0, 1, 2}, trace = []\<rparr>"

subsection \<open>The availability prober\<close>

text \<open>
  What the operating system does with one probe: the value of \<^verbatim>\<open>fork\<close> in this process,
  whether \<^verbatim>\<open>execvp\<close> replaces the child's image and how that program then ends, and
  whether \<^verbatim>\<open>waitpid\<close> returns the child's pid (it returns -1 otherwise, for instance
  when a signal interrupts it).
\<close>

record probe_env =
  pe_fork :: int
  pe_exec :: "wstatus option"
  pe_wait :: bool

text \<open>
  The branch \<^verbatim>\<open>pid == 0\<close> of \<^verbatim>\<open>check_program\<close>; the redirections of the three
  standard streams to \<^verbatim>\<open>/dev/null\<close> do not change how the child ends.
\<close>

definition probe_child :: "string list \<Rightarrow> probe_env \<Rightarrow> child_end" where
  "probe_child av e = (case pe_exec e of None \<Rightarrow> Exit 1 | Some st \<Rightarrow> Image av st)"

definition check_program :: "string list \<Rightarrow> probe_env \<Rightarrow> world \<Rightarrow> int ret \<times> world" where
  "check_program av e w =
     (let pid = pe_fork e;
          w1 = emit (Fork pid) (emit (Probe av) w)
      in if pid = 0 then (Child (probe_child av e), w1)
         else if pid > 0 then
           (let stat = status_of (probe_child av e);
                w2 = emit (Waitpid pid) w1
            in if pe_wait e \<and> WIFEXITED stat \<and> WEXITSTATUS stat = 0
               then (Ret 1, w2)
               else (Ret 0, w2))
         else (Ret 0, w1))"

subsection \<open>Opening a stream\<close>

record handle =
  fd :: int
  worker :: int

text \<open>
  What the operating system does during one call of \<^verbatim>\<open>net123_open\<close>: the two probes,
  whether \<^verbatim>\<open>malloc\<close> serves the handle, the two descriptors of the pipe (\<open>None\<close> when
  \<^verbatim>\<open>pipe\<close> fails), the value of \<^verbatim>\<open>fork\<close> in this process, and, for the worker child,
  its heap and the fate of its \<^verbatim>\<open>execvp\<close>.
\<close>

record env =
  probe_curl :: probe_env
  probe_wget :: probe_env
  handle_alloc :: bool
  pipe_ret :: "(int \<times> int) option"
  fork_ret :: int
  worker_heap :: heap
  worker_exec :: "wstatus option"

definition curl_version :: "string list" where
  "curl_version = [''curl'', ''--version'']"

definition wget_version :: "string list" where
  "wget_version = [''wget'', ''--version'']"

text \<open>
  Lines 193 to 216 of \<^verbatim>\<open>net123_open\<close>: the value of \<^verbatim>\<open>use_curl\<close>, or \<open>None\<close> where
  the function returns \<^verbatim>\<open>NULL\<close> for an invalid backend name.
\<close>

definition select_backend :: "params \<Rightarrow> env \<Rightarrow> world \<Rightarrow> int option ret \<times> world" where
  "select_backend param e w =
     (if network_backend param = ''auto'' then
        (case (if got_curl w < 0
               then (case check_program curl_version (probe_curl e) w of
                       (Ret r, w') \<Rightarrow> (Ret (), w'\<lparr>got_curl := r\<rparr>)
                     | (Child c, w') \<Rightarrow> (Child c, w'))
               else (Ret (), w)) of
           (Child c, w1) \<Rightarrow> (Child c, w1)
         | (Ret u, w1) \<Rightarrow>
             (case (if got_wget w1 < 0
                    then (case check_program wget_version (probe_wget e) w1 of
                            (Ret r, w') \<Rightarrow> (Ret (), w'\<lparr>got_wget := r\<rparr>)
                          | (Child c, w') \<Rightarrow> (Child c, w'))
                    else (Ret (), w1)) of
                (Child c, w2) \<Rightarrow> (Child c, w2)
              | (Ret u, w2) \<Rightarrow>
                  (Ret (Some (if got_wget w2 < 1 \<and> got_curl w2 = 1 then 1 else 0)), w2)))
      else if network_backend param = ''curl'' then (Ret (Some 1), w)
      else if network_backend param = ''wget'' then (Ret (Some 0), w)
      else (Ret None, emit (Log (Invalid_backend (network_backend param))) w))"

text \<open>
  The branch \<^verbatim>\<open>nh->worker == 0\<close> of \<^verbatim>\<open>net123_open\<close>: build the command line and
  replace the image, or exit with status 1. When the copy of the program name has failed,
  the call is \<^verbatim>\<open>execvp(NULL, argv)\<close>, which is undefined behaviour. The redirections and
  the listing of the command at \<^verbatim>\<open>param.verbose > 2\<close> are left out.
\<close>

definition worker_child ::
  "build \<Rightarrow> params \<Rightarrow> env \<Rightarrow> int \<Rightarrow> string \<Rightarrow> string list option \<Rightarrow> child_end"
where
  "worker_child cfg param e use_curl url client_head =
     (case (if use_curl \<noteq> 0
            then curl_argv cfg param url client_head (worker_heap e)
            else wget_argv cfg param url client_head (worker_heap e)) of
        Inl AllocFailed \<Rightarrow> Exit 1
      | Inl UndefinedBehaviour \<Rightarrow> Undefined
      | Inr av \<Rightarrow>
          (case av of
             Str prog # rest \<Rightarrow>
               (case worker_exec e of None \<Rightarrow> Exit 1 | Some st \<Rightarrow> Image (c_args av) st)
           | _ \<Rightarrow> Undefined))"

text \<open>
  \<^verbatim>\<open>net123_open\<close> from line 218 on, after the selection. \<^verbatim>\<open>compat_binmode\<close> changes
  nothing that is modelled here and is left out.
\<close>

definition net123_open ::
  "build \<Rightarrow> params \<Rightarrow> env \<Rightarrow> string \<Rightarrow> string list option \<Rightarrow> world
     \<Rightarrow> handle option ret \<times> world"
where
  "net123_open cfg param e url client_head w =
     (case select_backend param e w of
        (Child c, w1) \<Rightarrow> (Child c, w1)
      | (Ret None, w1) \<Rightarrow> (Ret None, w1)
      | (Ret (Some use_curl), w1) \<Rightarrow>
          (let w2 = emit Malloc w1 in
           if \<not> handle_alloc e then (Ret None, w2)
           else
             (let nh = \<lparr>fd = - 1, worker = 0\<rparr>;
                  w3 = emit Pipe w2
              in case pipe_ret e of
                   None \<Rightarrow> (Ret None, emit Free (emit (Log Pipe_failed) w3))
                 | Some (rd, wr) \<Rightarrow>
                     (let w4 = w3\<lparr>fds := insert wr (insert rd (fds w3))\<rparr>;
                          nh = nh\<lparr>worker := fork_ret e\<rparr>;
                          w5 = emit (Fork (worker nh)) w4
                      in if worker nh = - 1
                         then (Ret None, emit Free (emit (Log Fork_failed) w5))
                         else if worker nh = 0
                         then (Child (worker_child cfg param e use_curl url client_head), w5)
                         else
                           (let w6 = (if verbose param > 1
                                      then emit (Log (Note_started (worker nh))) w5
                                      else w5);
                                w7 = (emit (Close wr) w6)\<lparr>fds := fds w6 - {wr}\<rparr>
                            in (Ret (Some (nh\<lparr>fd := rd\<rparr>)), w7))))))"

subsection \<open>Reading\<close>

text \<open>
  One call of the read primitive is interrupted by a signal, or it completes: with data,
  at the end of the stream, or with an error.
\<close>

datatype completion = Data nat | Eof | Failed

datatype read_result = Interrupted | Completed completion

text \<open>
  What a completed read reports, as the \<^verbatim>\<open>size_t\<close> that \<^verbatim>\<open>net123_read\<close> returns: the
  number of bytes, at most the number asked for; 0 at the end of the stream; and for a
  failed read the report -1 of the read primitive, converted to \<^verbatim>\<open>size_t\<close>.
\<close>

fun report :: "nat \<Rightarrow> completion \<Rightarrow> nat" where
  "report n (Data k) = min k n"
| "report n Eof = 0"
| "report n Failed = size_t (- 1)"

text \<open>
  Modelled from the spec: \<^verbatim>\<open>unintr_read\<close> is defined in the compat layer, which is not
  part of the source at hand. The spec has it perform one blocking read against the
  descriptor, retried when a signal interrupts it, returning when data arrives, at the end
  of the stream or on a read error, reported as the read primitive reports it. The list
  holds the outcomes of the \<^verbatim>\<open>read\<close> calls still to come; when every attempt is
  interrupted the call never returns, which is \<open>None\<close>.
\<close>

fun unintr_read :: "int \<Rightarrow> nat \<Rightarrow> read_result list \<Rightarrow> world \<Rightarrow> (nat \<times> world) option" where
  "unintr_read d n [] w = None"
| "unintr_read d n (r # rs) w =
     (case r of
        Interrupted \<Rightarrow> unintr_read d n rs (emit (Read d) w)
      | Completed c \<Rightarrow> Some (report n c, emit (Read d) w))"

text \<open>
  The buffer is a pointer that may be null; its address is all that matters here. The
  result is a \<^verbatim>\<open>size_t\<close>.
\<close>

definition net123_read ::
  "handle option \<Rightarrow> nat option \<Rightarrow> nat \<Rightarrow> read_result list \<Rightarrow> world \<Rightarrow> (nat \<times> world) option"
where
  "net123_read nh buf bufsize rs w =
     (case nh of
        None \<Rightarrow> Some (0, w)
      | Some h \<Rightarrow>
          if bufsize \<noteq> 0 \<and> buf = None then Some (0, w)
          else unintr_read (fd h) bufsize rs w)"

subsection \<open>Closing\<close>

text \<open>\<open>wait_ret\<close> is the value that \<^verbatim>\<open>waitpid(nh->worker, NULL, 0)\<close> returns.\<close>

definition net123_close :: "params \<Rightarrow> int \<Rightarrow> handle option \<Rightarrow> world \<Rightarrow> world" where
  "net123_close param wait_ret nh w =
     (case nh of
        None \<Rightarrow> w
      | Some h \<Rightarrow>
          (let w1 = (if worker h \<noteq> 0
                     then (let wk = emit (Waitpid (worker h)) (emit (Kill (worker h) SIGKILL) w)
                           in if wait_ret < 0 then emit (Log Wait_failed) wk
                              else if verbose param > 1
                              then emit (Log (Note_finished (worker h))) wk
                              else wk)
                     else w);
               w2 = (if fd h > - 1
                     then (emit (Close (fd h)) w1)\<lparr>fds := fds w1 - {fd h}\<rparr>
                     else w1)
           in emit Free w2))"

text \<open>
  A run of the process: a sequence of calls of \<^verbatim>\<open>net123_open\<close>, each with the value of
  \<^verbatim>\<open>param\<close> and the behaviour of the operating system at that call. The run ends when
  the process turns out to be a forked child.
\<close>

fun opens ::
  "build \<Rightarrow> (params \<times> env \<times> string \<times> string list option) list \<Rightarrow> world \<Rightarrow> world"
where
  "opens cfg [] w = w"
| "opens cfg ((param, e, url, ch) # cs) w =
     (case net123_open cfg param e url ch w of
        (Child c, w') \<Rightarrow> w'
      | (Ret r, w') \<Rightarrow> opens cfg cs w')"

subsection \<open>Auxiliary notions for the proofs\<close>

text \<open>
  \<open>written s ws r\<close>: the block of \<open>s\<close> holds the values \<open>ws\<close> followed by \<open>r\<close> slots not
  yet written, the write index stands right after \<open>ws\<close>, and the index can run to the end
  of the block without overflow. \<open>filled ok m exp r\<close>: the builder has reached such a
  state, every value written so far is a string or a null pointer, and, when no allocation
  fails (\<open>ok\<close>), the values are exactly \<open>exp\<close>. \<open>wget_command\<close> and \<open>curl_command\<close> are the
  command lines the two builders are meant to produce, against which the blocks they fill
  are compared; \<open>wget_strings\<close> and \<open>curl_strings\<close> are the numbers of strings in them,
  where a credential counts only if its copy was allocated and, for wget, if it has a
  \<open>:\<close>.
\<close>

definition written :: "bstate \<Rightarrow> slot list \<Rightarrow> nat \<Rightarrow> bool" where
  "written s ws r =
     (argv s = ws @ replicate r Uninit \<and> an s = int (length ws)
      \<and> int (length ws + r) \<le> INT_MAX)"

definition filled :: "bool \<Rightarrow> bstate option \<Rightarrow> slot list \<Rightarrow> nat \<Rightarrow> bool" where
  "filled ok m exp r =
     (\<exists>s vs. m = Some s \<and> written s vs r \<and> length vs = length exp \<and> Uninit \<notin> set vs
        \<and> (ok \<longrightarrow> vs = exp \<and> no_failure (heap s)))"

definition wget_command :: "build \<Rightarrow> string \<Rightarrow> string list \<Rightarrow> string list \<Rightarrow> string list" where
  "wget_command cfg url hs auth =
     wget_base_args cfg @ [''--user-agent='' @ PACKAGE_NAME cfg @ ''/'' @ PACKAGE_VERSION cfg]
       @ map (\<lambda>x. ''--header='' @ x) hs @ auth @ [url]"

definition curl_command :: "build \<Rightarrow> string \<Rightarrow> string list \<Rightarrow> string list \<Rightarrow> string list" where
  "curl_command cfg url hs auth =
     curl_base_args cfg @ [''--user-agent'', PACKAGE_NAME cfg @ ''/'' @ PACKAGE_VERSION cfg]
       @ concat (map (\<lambda>x. [''--header'', x]) hs) @ auth @ [url]"

definition wget_strings :: "build \<Rightarrow> params \<Rightarrow> string list option \<Rightarrow> heap \<Rightarrow> nat" where
  "wget_strings cfg param ch h =
     length (wget_base_args cfg) + 1 + length (heads ch)
       + (case httpauth param of
            None \<Rightarrow> 0
          | Some a \<Rightarrow> if fst (malloc h) \<and> CHR '':'' \<in> set a then 2 else 0)
       + 1"

definition curl_strings :: "build \<Rightarrow> params \<Rightarrow> string list option \<Rightarrow> heap \<Rightarrow> nat" where
  "curl_strings cfg param ch h =
     length (curl_base_args cfg) + 2 + 2 * length (heads ch)
       + (case httpauth param of None \<Rightarrow> 0 | Some a \<Rightarrow> if fst (malloc h) then 2 else 0)
       + 1"

definition wget_auth_args :: "string option \<Rightarrow> string option \<Rightarrow> string list" where
  "wget_auth_args user password =
     (case user of None \<Rightarrow> [] | Some u \<Rightarrow> [''--user='' @ u])
       @ (case password of None \<Rightarrow> [] | Some p \<Rightarrow> [''--password='' @ p])"

definition curl_auth_args :: "slot \<Rightarrow> string list" where
  "curl_auth_args auth = (case auth of Str c \<Rightarrow> [''--user'', c] | _ \<Rightarrow> [])"

abbreviation (input) cfg0 :: build where
  "cfg0 \<equiv> \<lparr>DEBUG = False, PACKAGE_NAME = ''mpg123'', PACKAGE_VERSION = ''1.26''\<rparr>"

abbreviation (input) par0 :: params where
  "par0 \<equiv> \<lparr>network_backend = ''auto'', httpauth = None, verbose = 0\<rparr>"

definition probes :: "world \<Rightarrow> string list \<Rightarrow> nat" where
  "probes w av = count_list (trace w) (Probe av)"

definition cache_inv :: "world \<Rightarrow> bool" where
  "cache_inv w =
     ((got_curl w < 0 \<longrightarrow> probes w curl_version = 0) \<and> probes w curl_version \<le> 1
      \<and> (got_wget w < 0 \<longrightarrow> probes w wget_version = 0) \<and> probes w wget_version \<le> 1)"

abbreviation (input) found :: probe_env where
  "found \<equiv> \<lparr>pe_fork = 101, pe_exec = Some (Exited 0), pe_wait = True\<rparr>"

abbreviation (input) missing :: probe_env where
  "missing \<equiv> \<lparr>pe_fork = 102, pe_exec = None, pe_wait = True\<rparr>"

abbreviation (input) env0 :: env where
  "env0 \<equiv> \<lparr>probe_curl = found, probe_wget = missing, handle_alloc = True,
            pipe_ret = Some (3, 4), fork_ret = 103, worker_heap = [],
            worker_exec = Some (Exited 0)\<rparr>"

section \<open>Properties of the argument builders\<close>

lemma malloc_no_failure: "no_failure h \<Longrightarrow> fst (malloc h) \<and> no_failure (snd (malloc h))"
  by (cases h) (simp_all add: no_failure_def)

lemma put_written:
  "written s ws (Suc r) \<Longrightarrow> v \<noteq> Uninit \<Longrightarrow>
     \<exists>s'. put v s = Some s' \<and> written s' (ws @ [v]) r \<and> heap s' = heap s"
  by (simp add: written_def put_def list_update_append)

lemma filled_put:
  assumes "filled ok m exp (Suc r)" and "v \<noteq> Uninit"
  shows "filled ok (m \<bind> put v) (exp @ [v]) r"
proof -
  from assms(1) obtain s vs where s: "m = Some s" "written s vs (Suc r)"
    "length vs = length exp" "Uninit \<notin> set vs" "ok \<longrightarrow> vs = exp \<and> no_failure (heap s)"
    unfolding filled_def by blast
  from put_written [OF s(2) assms(2)] obtain s' where
    s': "put v s = Some s'" "written s' (vs @ [v]) r" "heap s' = heap s" by blast
  show ?thesis unfolding filled_def
    using s s' assms(2) by (intro exI [of _ s'] exI [of _ "vs @ [v]"]) auto
qed

lemma filled_put_dup:
  assumes "filled ok m exp (Suc r)"
  shows "filled ok (m \<bind> put_dup x) (exp @ [Str x]) r"
proof -
  from assms(1) obtain s vs where s: "m = Some s" "written s vs (Suc r)"
    "length vs = length exp" "Uninit \<notin> set vs" "ok \<longrightarrow> vs = exp \<and> no_failure (heap s)"
    unfolding filled_def by blast
  define v where "v = fst (compat_strdup x (heap s))"
  define h where "h = snd (compat_strdup x (heap s))"
  have v: "v \<noteq> Uninit" and okv: "no_failure (heap s) \<Longrightarrow> v = Str x \<and> no_failure h"
    using malloc_no_failure [of "heap s"]
    by (auto simp: v_def h_def compat_strdup_def split: prod.splits)
  have w: "written (s\<lparr>heap := h\<rparr>) vs (Suc r)" using s(2) by (simp add: written_def)
  from put_written [OF w v] obtain s' where
    s': "put v (s\<lparr>heap := h\<rparr>) = Some s'" "written s' (vs @ [v]) r" "heap s' = h" by auto
  have "put_dup x s = Some s'"
    using s'(1) by (simp add: put_dup_def v_def h_def case_prod_beta)
  then show ?thesis unfolding filled_def
    using s s' v okv by (intro exI [of _ s'] exI [of _ "vs @ [v]"]) auto
qed

lemma filled_put_cat:
  assumes "filled ok m exp (Suc r)"
  shows "filled ok (m \<bind> put_cat p x) (exp @ [Str (p @ x)]) r"
proof -
  from assms(1) obtain s vs where s: "m = Some s" "written s vs (Suc r)"
    "length vs = length exp" "Uninit \<notin> set vs" "ok \<longrightarrow> vs = exp \<and> no_failure (heap s)"
    unfolding filled_def by blast
  define v where "v = fst (catstr p x (heap s))"
  define h where "h = snd (catstr p x (heap s))"
  have v: "v \<noteq> Uninit" and okv: "no_failure (heap s) \<Longrightarrow> v = Str (p @ x) \<and> no_failure h"
    using malloc_no_failure [of "heap s"]
    by (auto simp: v_def h_def catstr_def split: prod.splits)
  have w: "written (s\<lparr>heap := h\<rparr>) vs (Suc r)" using s(2) by (simp add: written_def)
  from put_written [OF w v] obtain s' where
    s': "put v (s\<lparr>heap := h\<rparr>) = Some s'" "written s' (vs @ [v]) r" "heap s' = h" by auto
  have "put_cat p x s = Some s'"
    using s'(1) by (simp add: put_cat_def v_def h_def case_prod_beta)
  then show ?thesis unfolding filled_def
    using s s' v okv by (intro exI [of _ s'] exI [of _ "vs @ [v]"]) auto
qed

lemma filled_Some: "filled ok m exp r \<Longrightarrow> filled ok (m \<bind> Some) exp r"
  by (auto simp: filled_def)

lemma filled_put_dups:
  "filled ok m exp (length xs + r) \<Longrightarrow> filled ok (m \<bind> put_dups xs) (exp @ map Str xs) r"
proof (induction xs arbitrary: m exp)
  case Nil
  have "put_dups [] = Some" by (rule ext) simp
  with Nil show ?case by (simp add: filled_Some)
next
  case (Cons x xs)
  have eq: "put_dups (x # xs) = (\<lambda>s. put_dup x s \<bind> put_dups xs)" by (rule ext) simp
  from Cons.prems have "filled ok (m \<bind> put_dup x) (exp @ [Str x]) (length xs + r)"
    by (simp add: filled_put_dup)
  from Cons.IH [OF this] show ?case by (simp add: eq)
qed

lemma filled_put_cats:
  "filled ok m exp (length xs + r) \<Longrightarrow>
     filled ok (m \<bind> put_cats p xs) (exp @ map (\<lambda>x. Str (p @ x)) xs) r"
proof (induction xs arbitrary: m exp)
  case Nil
  have "put_cats p [] = Some" by (rule ext) simp
  with Nil show ?case by (simp add: filled_Some)
next
  case (Cons x xs)
  have eq: "put_cats p (x # xs) = (\<lambda>s. put_cat p x s \<bind> put_cats p xs)" by (rule ext) simp
  from Cons.prems have "filled ok (m \<bind> put_cat p x) (exp @ [Str (p @ x)]) (length xs + r)"
    by (simp add: filled_put_cat)
  from Cons.IH [OF this] show ?case by (simp add: eq)
qed

lemma filled_put_headers:
  "filled ok m exp (2 * length xs + r) \<Longrightarrow>
     filled ok (m \<bind> put_headers xs) (exp @ concat (map (\<lambda>x. [Str ''--header'', Str x]) xs)) r"
proof (induction xs arbitrary: m exp)
  case Nil
  have "put_headers [] = Some" by (rule ext) simp
  with Nil show ?case by (simp add: filled_Some)
next
  case (Cons x xs)
  have eq: "put_headers (x # xs) = (\<lambda>s. put_dup ''--header'' s \<bind> put_dup x \<bind> put_headers xs)"
    by (rule ext) simp
  from Cons.prems have "filled ok (m \<bind> put_dup ''--header'') (exp @ [Str ''--header''])
      (Suc (2 * length xs + r))"
    by (simp add: filled_put_dup)
  then have "filled ok (m \<bind> put_dup ''--header'' \<bind> put_dup x)
      ((exp @ [Str ''--header'']) @ [Str x]) (2 * length xs + r)"
    by (rule filled_put_dup)
  from Cons.IH [OF this] show ?case by (simp add: eq)
qed

lemma filled_init:
  "filled ok (Some \<lparr>argv = replicate n Uninit, an = 0, heap = h\<rparr>) [] n"
  if "ok \<longrightarrow> no_failure h" and "int n \<le> INT_MAX"
  using that by (simp add: filled_def written_def)

lemma filled_sentinel:
  assumes "filled ok m exp (Suc r)"
  shows "\<exists>s vs. (m \<bind> put Null) = Some s \<and> argv s = vs @ Null # replicate r Uninit
           \<and> length vs = length exp \<and> Uninit \<notin> set vs \<and> (ok \<longrightarrow> vs = exp)"
proof -
  from assms(1) obtain s vs where s: "m = Some s" "written s vs (Suc r)"
    "length vs = length exp" "Uninit \<notin> set vs" "ok \<longrightarrow> vs = exp \<and> no_failure (heap s)"
    unfolding filled_def by blast
  from put_written [OF s(2), of Null] obtain s' where
    s': "put Null s = Some s'" "written s' (vs @ [Null]) r" by auto
  show ?thesis
    using s s' by (intro exI [of _ s'] exI [of _ vs]) (auto simp: written_def)
qed

lemma wget_chain_plain:
  assumes "argc = length (wget_base_args cfg) + 1 + length hs + 1 + 1"
    and "ok \<longrightarrow> no_failure h2"
    and "int (argc + 1) \<le> INT_MAX"
  shows "\<exists>s vs.
      (put_dups (wget_base_args cfg) \<lparr>argv = replicate (argc + 1) Uninit, an = 0, heap = h2\<rparr>
        \<bind> put_dup (''--user-agent='' @ PACKAGE_NAME cfg @ ''/'' @ PACKAGE_VERSION cfg)
        \<bind> put_cats ''--header='' hs
        \<bind> (\<lambda>s. case None of None \<Rightarrow> Some s | Some u \<Rightarrow> put_cat ''--user='' u s)
        \<bind> (\<lambda>s. case None of None \<Rightarrow> Some s | Some p \<Rightarrow> put_cat ''--password='' p s)
        \<bind> put_dup url
        \<bind> put Null) = Some s
      \<and> argv s = vs @ [Null, Uninit] \<and> length vs = argc - 1 \<and> Uninit \<notin> set vs
      \<and> (ok \<longrightarrow> vs = map Str (wget_command cfg url hs []))"
proof -
  let ?s0 = "\<lparr>argv = replicate (argc + 1) Uninit, an = 0, heap = h2\<rparr>"
  let ?b = "wget_base_args cfg"
  let ?agent = "''--user-agent='' @ PACKAGE_NAME cfg @ ''/'' @ PACKAGE_VERSION cfg"
  have n: "argc + 1 = length ?b + Suc (length hs + Suc (Suc (Suc 0)))"
    using assms(1) by simp
  have "filled ok (Some ?s0) [] (length ?b + Suc (length hs + Suc (Suc (Suc 0))))"
    unfolding n [symmetric] using assms(2,3) by (rule filled_init)
  then have "filled ok (Some ?s0 \<bind> put_dups ?b) ([] @ map Str ?b)
      (Suc (length hs + Suc (Suc (Suc 0))))"
    by (rule filled_put_dups)
  then have "filled ok (Some ?s0 \<bind> put_dups ?b \<bind> put_dup ?agent)
      (([] @ map Str ?b) @ [Str ?agent]) (length hs + Suc (Suc (Suc 0)))"
    by (rule filled_put_dup)
  then have "filled ok (Some ?s0 \<bind> put_dups ?b \<bind> put_dup ?agent \<bind> put_cats ''--header='' hs)
      ((([] @ map Str ?b) @ [Str ?agent]) @ map (\<lambda>x. Str (''--header='' @ x)) hs) (Suc (Suc (Suc 0)))"
    by (rule filled_put_cats)
  then have "filled ok (Some ?s0 \<bind> put_dups ?b \<bind> put_dup ?agent \<bind> put_cats ''--header='' hs
        \<bind> put_dup url)
      (((([] @ map Str ?b) @ [Str ?agent]) @ map (\<lambda>x. Str (''--header='' @ x)) hs) @ [Str url])
      (Suc (Suc 0))"
    by (rule filled_put_dup)
  from filled_sentinel [OF this] show ?thesis
    using assms(1) by (simp add: wget_command_def comp_def)
qed

lemma wget_chain_auth:
  assumes "argc = length (wget_base_args cfg) + 1 + length hs + 1 + 1 + 2"
    and "ok \<longrightarrow> no_failure h2"
    and "int (argc + 1) \<le> INT_MAX"
  shows "\<exists>s vs.
      (put_dups (wget_base_args cfg) \<lparr>argv = replicate (argc + 1) Uninit, an = 0, heap = h2\<rparr>
        \<bind> put_dup (''--user-agent='' @ PACKAGE_NAME cfg @ ''/'' @ PACKAGE_VERSION cfg)
        \<bind> put_cats ''--header='' hs
        \<bind> (\<lambda>s. case Some u of None \<Rightarrow> Some s | Some u \<Rightarrow> put_cat ''--user='' u s)
        \<bind> (\<lambda>s. case Some p of None \<Rightarrow> Some s | Some p \<Rightarrow> put_cat ''--password='' p s)
        \<bind> put_dup url
        \<bind> put Null) = Some s
      \<and> argv s = vs @ [Null, Uninit] \<and> length vs = argc - 1 \<and> Uninit \<notin> set vs
      \<and> (ok \<longrightarrow> vs = map Str (wget_command cfg url hs [''--user='' @ u, ''--password='' @ p]))"
proof -
  let ?s0 = "\<lparr>argv = replicate (argc + 1) Uninit, an = 0, heap = h2\<rparr>"
  let ?b = "wget_base_args cfg"
  let ?agent = "''--user-agent='' @ PACKAGE_NAME cfg @ ''/'' @ PACKAGE_VERSION cfg"
  have n: "argc + 1 = length ?b + Suc (length hs + Suc (Suc (Suc (Suc (Suc 0)))))"
    using assms(1) by simp
  have "filled ok (Some ?s0) [] (length ?b + Suc (length hs + Suc (Suc (Suc (Suc (Suc 0))))))"
    unfolding n [symmetric] using assms(2,3) by (rule filled_init)
  then have "filled ok (Some ?s0 \<bind> put_dups ?b) ([] @ map Str ?b)
      (Suc (length hs + Suc (Suc (Suc (Suc (Suc 0))))))"
    by (rule filled_put_dups)
  then have "filled ok (Some ?s0 \<bind> put_dups ?b \<bind> put_dup ?agent)
      (([] @ map Str ?b) @ [Str ?agent]) (length hs + Suc (Suc (Suc (Suc (Suc 0)))))"
    by (rule filled_put_dup)
  then have "filled ok (Some ?s0 \<bind> put_dups ?b \<bind> put_dup ?agent \<bind> put_cats ''--header='' hs)
      ((([] @ map Str ?b) @ [Str ?agent]) @ map (\<lambda>x. Str (''--header='' @ x)) hs)
      (Suc (Suc (Suc (Suc (Suc 0)))))"
    by (rule filled_put_cats)
  then have "filled ok (Some ?s0 \<bind> put_dups ?b \<bind> put_dup ?agent \<bind> put_cats ''--header='' hs
        \<bind> put_cat ''--user='' u)
      (((([] @ map Str ?b) @ [Str ?agent]) @ map (\<lambda>x. Str (''--header='' @ x)) hs)
         @ [Str (''--user='' @ u)])
      (Suc (Suc (Suc (Suc 0))))"
    by (rule filled_put_cat)
  then have "filled ok (Some ?s0 \<bind> put_dups ?b \<bind> put_dup ?agent \<bind> put_cats ''--header='' hs
        \<bind> put_cat ''--user='' u \<bind> put_cat ''--password='' p)
      ((((([] @ map Str ?b) @ [Str ?agent]) @ map (\<lambda>x. Str (''--header='' @ x)) hs)
         @ [Str (''--user='' @ u)]) @ [Str (''--password='' @ p)])
      (Suc (Suc (Suc 0)))"
    by (rule filled_put_cat)
  then have "filled ok (Some ?s0 \<bind> put_dups ?b \<bind> put_dup ?agent \<bind> put_cats ''--header='' hs
        \<bind> put_cat ''--user='' u \<bind> put_cat ''--password='' p \<bind> put_dup url)
      (((((([] @ map Str ?b) @ [Str ?agent]) @ map (\<lambda>x. Str (''--header='' @ x)) hs)
         @ [Str (''--user='' @ u)]) @ [Str (''--password='' @ p)]) @ [Str url])
      (Suc (Suc 0))"
    by (rule filled_put_dup)
  from filled_sentinel [OF this] show ?thesis
    using assms(1) by (simp add: wget_command_def comp_def)
qed

lemma length_header_pairs [simp]:
  "length (concat (map (\<lambda>x. [a, f x]) hs)) = 2 * length hs"
  by (induction hs) simp_all

lemma curl_chain_plain:
  assumes "argc = length (curl_base_args cfg) + 2 + 2 * length hs + 1 + 1"
    and "ok \<longrightarrow> no_failure h2"
    and "int (argc + 1) \<le> INT_MAX"
  shows "\<exists>s vs.
      (put_dups (curl_base_args cfg) \<lparr>argv = replicate (argc + 1) Uninit, an = 0, heap = h2\<rparr>
        \<bind> put_dup ''--user-agent''
        \<bind> put_dup (PACKAGE_NAME cfg @ ''/'' @ PACKAGE_VERSION cfg)
        \<bind> put_headers hs
        \<bind> (\<lambda>s. case Null of Str a \<Rightarrow> put_dup ''--user'' s \<bind> put Null | _ \<Rightarrow> Some s)
        \<bind> put_dup url
        \<bind> put Null) = Some s
      \<and> argv s = vs @ [Null, Uninit] \<and> length vs = argc - 1 \<and> Uninit \<notin> set vs
      \<and> (ok \<longrightarrow> vs = map Str (curl_command cfg url hs []))"
proof -
  let ?s0 = "\<lparr>argv = replicate (argc + 1) Uninit, an = 0, heap = h2\<rparr>"
  let ?b = "curl_base_args cfg"
  let ?agent = "PACKAGE_NAME cfg @ ''/'' @ PACKAGE_VERSION cfg"
  let ?hd = "concat (map (\<lambda>x. [Str ''--header'', Str x]) hs)"
  have n: "argc + 1 = length ?b + Suc (Suc (2 * length hs + Suc (Suc (Suc 0))))"
    using assms(1) by simp
  have "filled ok (Some ?s0) [] (length ?b + Suc (Suc (2 * length hs + Suc (Suc (Suc 0)))))"
    unfolding n [symmetric] using assms(2,3) by (rule filled_init)
  then have "filled ok (Some ?s0 \<bind> put_dups ?b) ([] @ map Str ?b)
      (Suc (Suc (2 * length hs + Suc (Suc (Suc 0)))))"
    by (rule filled_put_dups)
  then have "filled ok (Some ?s0 \<bind> put_dups ?b \<bind> put_dup ''--user-agent'')
      (([] @ map Str ?b) @ [Str ''--user-agent'']) (Suc (2 * length hs + Suc (Suc (Suc 0))))"
    by (rule filled_put_dup)
  then have "filled ok (Some ?s0 \<bind> put_dups ?b \<bind> put_dup ''--user-agent'' \<bind> put_dup ?agent)
      ((([] @ map Str ?b) @ [Str ''--user-agent'']) @ [Str ?agent])
      (2 * length hs + Suc (Suc (Suc 0)))"
    by (rule filled_put_dup)
  then have "filled ok (Some ?s0 \<bind> put_dups ?b \<bind> put_dup ''--user-agent'' \<bind> put_dup ?agent
        \<bind> put_headers hs)
      (((([] @ map Str ?b) @ [Str ''--user-agent'']) @ [Str ?agent]) @ ?hd)
      (Suc (Suc (Suc 0)))"
    by (rule filled_put_headers)
  then have "filled ok (Some ?s0 \<bind> put_dups ?b \<bind> put_dup ''--user-agent'' \<bind> put_dup ?agent
        \<bind> put_headers hs \<bind> put_dup url)
      ((((([] @ map Str ?b) @ [Str ''--user-agent'']) @ [Str ?agent]) @ ?hd) @ [Str url])
      (Suc (Suc 0))"
    by (rule filled_put_dup)
  from filled_sentinel [OF this] show ?thesis
    using assms(1) by (simp add: curl_command_def comp_def map_concat)
qed

lemma curl_chain_auth:
  assumes "argc = length (curl_base_args cfg) + 2 + 2 * length hs + 1 + 1 + 2"
    and "ok \<longrightarrow> no_failure h2"
    and "int (argc + 1) \<le> INT_MAX"
  shows "\<exists>s vs.
      (put_dups (curl_base_args cfg) \<lparr>argv = replicate (argc + 1) Uninit, an = 0, heap = h2\<rparr>
        \<bind> put_dup ''--user-agent''
        \<bind> put_dup (PACKAGE_NAME cfg @ ''/'' @ PACKAGE_VERSION cfg)
        \<bind> put_headers hs
        \<bind> (\<lambda>s. case Str c of Str a \<Rightarrow> put_dup ''--user'' s \<bind> put (Str c) | _ \<Rightarrow> Some s)
        \<bind> put_dup url
        \<bind> put Null) = Some s
      \<and> argv s = vs @ [Null, Uninit] \<and> length vs = argc - 1 \<and> Uninit \<notin> set vs
      \<and> (ok \<longrightarrow> vs = map Str (curl_command cfg url hs [''--user'', c]))"
proof -
  let ?s0 = "\<lparr>argv = replicate (argc + 1) Uninit, an = 0, heap = h2\<rparr>"
  let ?b = "curl_base_args cfg"
  let ?agent = "PACKAGE_NAME cfg @ ''/'' @ PACKAGE_VERSION cfg"
  let ?hd = "concat (map (\<lambda>x. [Str ''--header'', Str x]) hs)"
  have n: "argc + 1 = length ?b + Suc (Suc (2 * length hs + Suc (Suc (Suc (Suc (Suc 0))))))"
    using assms(1) by simp
  have "filled ok (Some ?s0) [] (length ?b + Suc (Suc (2 * length hs + Suc (Suc (Suc (Suc (Suc 0)))))))"
    unfolding n [symmetric] using assms(2,3) by (rule filled_init)
  then have "filled ok (Some ?s0 \<bind> put_dups ?b) ([] @ map Str ?b)
      (Suc (Suc (2 * length hs + Suc (Suc (Suc (Suc (Suc 0)))))))"
    by (rule filled_put_dups)
  then have "filled ok (Some ?s0 \<bind> put_dups ?b \<bind> put_dup ''--user-agent'')
      (([] @ map Str ?b) @ [Str ''--user-agent''])
      (Suc (2 * length hs + Suc (Suc (Suc (Suc (Suc 0))))))"
    by (rule filled_put_dup)
  then have "filled ok (Some ?s0 \<bind> put_dups ?b \<bind> put_dup ''--user-agent'' \<bind> put_dup ?agent)
      ((([] @ map Str ?b) @ [Str ''--user-agent'']) @ [Str ?agent])
      (2 * length hs + Suc (Suc (Suc (Suc (Suc 0)))))"
    by (rule filled_put_dup)
  then have "filled ok (Some ?s0 \<bind> put_dups ?b \<bind> put_dup ''--user-agent'' \<bind> put_dup ?agent
        \<bind> put_headers hs)
      (((([] @ map Str ?b) @ [Str ''--user-agent'']) @ [Str ?agent]) @ ?hd)
      (Suc (Suc (Suc (Suc (Suc 0)))))"
    by (rule filled_put_headers)
  then have "filled ok (Some ?s0 \<bind> put_dups ?b \<bind> put_dup ''--user-agent'' \<bind> put_dup ?agent
        \<bind> put_headers hs \<bind> put_dup ''--user'')
      ((((([] @ map Str ?b) @ [Str ''--user-agent'']) @ [Str ?agent]) @ ?hd) @ [Str ''--user''])
      (Suc (Suc (Suc (Suc 0))))"
    by (rule filled_put_dup)
  then have "filled ok (Some ?s0 \<bind> put_dups ?b \<bind> put_dup ''--user-agent'' \<bind> put_dup ?agent
        \<bind> put_headers hs \<bind> put_dup ''--user'' \<bind> put (Str c))
      (((((([] @ map Str ?b) @ [Str ''--user-agent'']) @ [Str ?agent]) @ ?hd) @ [Str ''--user''])
         @ [Str c])
      (Suc (Suc (Suc 0)))"
    by (rule filled_put) simp
  then have "filled ok (Some ?s0 \<bind> put_dups ?b \<bind> put_dup ''--user-agent'' \<bind> put_dup ?agent
        \<bind> put_headers hs \<bind> put_dup ''--user'' \<bind> put (Str c) \<bind> put_dup url)
      ((((((([] @ map Str ?b) @ [Str ''--user-agent'']) @ [Str ?agent]) @ ?hd) @ [Str ''--user''])
         @ [Str c]) @ [Str url])
      (Suc (Suc 0))"
    by (rule filled_put_dup)
  from filled_sentinel [OF this] show ?thesis
    using assms(1) by (simp add: curl_command_def comp_def map_concat)
qed

lemma strchr_None: "strchr a c = None \<longleftrightarrow> c \<notin> set a"
  by (induction a) auto

lemma strchr_Some:
  "strchr a c = Some i \<Longrightarrow> a = take i a @ c # drop (Suc i) a \<and> c \<notin> set (take i a)"
  by (induction a arbitrary: i) (auto split: if_splits)

lemma int_of_size_t_small: "n < 2 ^ 31 \<Longrightarrow> int_of_size_t (n mod 2 ^ 64) = int n"
proof -
  assume n: "n < 2 ^ 31"
  then have "n < 2 ^ 64" by simp
  then have a: "n mod 2 ^ 64 = n" by simp
  have "int n < 2 ^ 32" using n by simp
  then have b: "int n mod 2 ^ 32 = int n" by simp
  have "int n \<le> INT_MAX" using n by (simp add: INT_MAX_def)
  then show ?thesis unfolding int_of_size_t_def a b Let_def by simp
qed

lemma int_add_small: "0 \<le> a \<Longrightarrow> 0 \<le> b \<Longrightarrow> a + b \<le> INT_MAX \<Longrightarrow> int_add a b = Some (a + b)"
  by (simp add: int_add_def INT_MIN_def)

lemma block_slots_small: "0 \<le> n \<Longrightarrow> n < 2 ^ 31 \<Longrightarrow> block_slots n = nat n"
proof -
  assume n: "0 \<le> n" "n < 2 ^ 31"
  then have "n < 2 ^ 64" by simp
  with n have a: "n mod 2 ^ 64 = n" by simp
  have "8 * nat n < 2 ^ 64" using n by simp
  then have b: "(8 * nat n) mod 2 ^ 64 = 8 * nat n" by simp
  show ?thesis unfolding block_slots_def size_t_def a b by simp
qed

lemma base_args_length:
  "length (wget_base_args cfg) \<le> 4" "length (curl_base_args cfg) \<le> 5"
  by (simp_all add: wget_base_args_def curl_base_args_def)

lemma wget_plan_small:
  assumes "length (heads ch) < 2 ^ 30 - 8"
  shows "wget_plan cfg param ch h =
     (case (case httpauth param of None \<Rightarrow> (Null, h) | Some a \<Rightarrow> compat_strdup a h) of
        (auth, h1) \<Rightarrow>
          (case auth of
             Str a \<Rightarrow>
               (case strchr a CHR '':'' of
                  Some sep \<Rightarrow>
                    (Some (int (length (wget_base_args cfg) + 1 + length (heads ch) + 1 + 1 + 2)),
                     Some (take sep a), Some (drop (Suc sep) a), h1)
                | None \<Rightarrow>
                    (Some (int (length (wget_base_args cfg) + 1 + length (heads ch) + 1 + 1)),
                     None, None, h1))
           | _ \<Rightarrow>
               (Some (int (length (wget_base_args cfg) + 1 + length (heads ch) + 1 + 1)),
                None, None, h1)))"
proof -
  define n where "n = length (wget_base_args cfg) + 1 + length (heads ch) + 1 + 1"
  have small: "n < 2 ^ 31" "int n + 2 \<le> INT_MAX"
    using assms base_args_length(1) [of cfg] by (simp_all add: INT_MAX_def n_def)
  have c: "int_of_size_t (n mod 2 ^ 64) = int n" using small(1) by (rule int_of_size_t_small)
  have d: "int_add (int n) 2 = Some (int (n + 2))" using small(2) by (simp add: int_add_small)
  show ?thesis
    unfolding wget_plan_def Let_def n_def [symmetric] c d
    by (simp split: prod.splits)
qed

lemma wget_plan_cases:
  assumes "wget_plan cfg param ch h = (a, user, password, h1)"
    and "length (heads ch) < 2 ^ 30 - 8"
  shows "h1 = (case httpauth param of None \<Rightarrow> h | Some c \<Rightarrow> snd (malloc h))"
    and "a = Some (int (wget_strings cfg param ch h + 1))"
    and "(user = None \<and> password = None
            \<and> wget_strings cfg param ch h
                = length (wget_base_args cfg) + 1 + length (heads ch) + 1)
         \<or> (\<exists>u p. user = Some u \<and> password = Some p
            \<and> httpauth param = Some (u @ CHR '':'' # p) \<and> CHR '':'' \<notin> set u
            \<and> wget_strings cfg param ch h
                = length (wget_base_args cfg) + 1 + length (heads ch) + 2 + 1)"
proof -
  note plan = assms(1) [unfolded wget_plan_small [OF assms(2)]]
  have all: "h1 = (case httpauth param of None \<Rightarrow> h | Some c \<Rightarrow> snd (malloc h))
    \<and> a = Some (int (wget_strings cfg param ch h + 1))
    \<and> ((user = None \<and> password = None
            \<and> wget_strings cfg param ch h
                = length (wget_base_args cfg) + 1 + length (heads ch) + 1)
         \<or> (\<exists>u p. user = Some u \<and> password = Some p
            \<and> httpauth param = Some (u @ CHR '':'' # p) \<and> CHR '':'' \<notin> set u
            \<and> wget_strings cfg param ch h
                = length (wget_base_args cfg) + 1 + length (heads ch) + 2 + 1))"
  proof (cases "httpauth param")
    case None
    with plan show ?thesis by (simp add: wget_strings_def)
  next
    case (Some cr)
    show ?thesis
    proof (cases "fst (malloc h)")
      case False
      with Some plan show ?thesis
        by (auto simp: wget_strings_def compat_strdup_def split: prod.splits)
    next
      case ok: True
      show ?thesis
      proof (cases "strchr cr CHR '':''")
        case None
        then have "CHR '':'' \<notin> set cr" by (simp add: strchr_None)
        with None Some ok plan show ?thesis
          by (auto simp: wget_strings_def compat_strdup_def split: prod.splits)
      next
        case (Some i)
        note sp = strchr_Some [OF Some]
        from Some have "CHR '':'' \<in> set cr" using strchr_None [of cr "CHR '':''"] by auto
        with Some \<open>httpauth param = Some cr\<close> ok plan sp show ?thesis
          by (auto simp: wget_strings_def compat_strdup_def split: prod.splits)
      qed
    qed
  qed
  from all show "h1 = (case httpauth param of None \<Rightarrow> h | Some c \<Rightarrow> snd (malloc h))"
    and "a = Some (int (wget_strings cfg param ch h + 1))"
    and "(user = None \<and> password = None
            \<and> wget_strings cfg param ch h
                = length (wget_base_args cfg) + 1 + length (heads ch) + 1)
         \<or> (\<exists>u p. user = Some u \<and> password = Some p
            \<and> httpauth param = Some (u @ CHR '':'' # p) \<and> CHR '':'' \<notin> set u
            \<and> wget_strings cfg param ch h
                = length (wget_base_args cfg) + 1 + length (heads ch) + 2 + 1)"
    by blast+
qed

lemma wget_argv_result:
  assumes "wget_plan cfg param ch h = (a, user, password, h1)"
    and "length (heads ch) < 2 ^ 30 - 8"
  shows "if fst (malloc h1)
         then \<exists>vs. wget_argv cfg param url ch h = Inr (vs @ [Null, Uninit])
                \<and> length vs = wget_strings cfg param ch h \<and> Uninit \<notin> set vs
                \<and> (no_failure h \<longrightarrow>
                     vs = map Str (wget_command cfg url (heads ch) (wget_auth_args user password)))
         else wget_argv cfg param url ch h = Inl AllocFailed"
proof (cases "malloc h1")
  case (Pair ok h2)
  let ?n = "wget_strings cfg param ch h + 1"
  note pc = wget_plan_cases [OF assms]
  have n: "int (?n + 1) \<le> INT_MAX"
    using pc(3) assms(2) base_args_length(1) [of cfg] by (auto simp: INT_MAX_def)
  then have add: "int_add (int ?n) 1 = Some (int (?n + 1))"
    by (simp add: int_add_small)
  have slots: "block_slots (int (?n + 1)) = ?n + 1"
    using n block_slots_small [of "int (?n + 1)"] by (simp add: INT_MAX_def)
  show ?thesis
  proof (cases ok)
    case False
    with Pair assms(1) pc(2) add show ?thesis by (simp add: wget_argv_def)
  next
    case True
    have nf: "no_failure h \<longrightarrow> no_failure h2"
      using Pair malloc_no_failure [of h] malloc_no_failure [of h1]
      by (auto simp: pc(1) split: option.splits)
    from pc(3) show ?thesis
    proof (elim disjE conjE exE)
      assume c: "user = None" "password = None"
        "wget_strings cfg param ch h = length (wget_base_args cfg) + 1 + length (heads ch) + 1"
      then have e: "?n = length (wget_base_args cfg) + 1 + length (heads ch) + 1 + 1" by simp
      from wget_chain_plain [OF e nf n, of url] show ?thesis
        using Pair True assms(1) pc(2) add slots c
        by (auto simp: wget_argv_def wget_auth_args_def)
    next
      fix u p
      assume c: "user = Some u" "password = Some p"
        "wget_strings cfg param ch h
           = length (wget_base_args cfg) + 1 + length (heads ch) + 2 + 1"
      then have e: "?n = length (wget_base_args cfg) + 1 + length (heads ch) + 1 + 1 + 2"
        by simp
      from wget_chain_auth [OF e nf n, of u p url] show ?thesis
        using Pair True assms(1) pc(2) add slots c
        by (auto simp: wget_argv_def wget_auth_args_def)
    qed
  qed
qed

lemma curl_plan_small:
  assumes "length (heads ch) < 2 ^ 30 - 8"
  shows "curl_plan cfg param ch h =
     (case (case httpauth param of None \<Rightarrow> (Null, h) | Some a \<Rightarrow> compat_strdup a h) of
        (auth, h1) \<Rightarrow>
          (case auth of
             Str a \<Rightarrow>
               (Some (int (length (curl_base_args cfg) + 2 + 2 * length (heads ch) + 1 + 1 + 2)),
                auth, h1)
           | _ \<Rightarrow>
               (Some (int (length (curl_base_args cfg) + 2 + 2 * length (heads ch) + 1 + 1)),
                auth, h1)))"
proof -
  define n where "n = length (curl_base_args cfg) + 2 + 2 * length (heads ch) + 1 + 1"
  have small: "n < 2 ^ 31" "int n + 2 \<le> INT_MAX"
    using assms base_args_length(2) [of cfg] by (simp_all add: INT_MAX_def n_def)
  have c: "int_of_size_t (n mod 2 ^ 64) = int n" using small(1) by (rule int_of_size_t_small)
  have d: "int_add (int n) 2 = Some (int (n + 2))" using small(2) by (simp add: int_add_small)
  show ?thesis
    unfolding curl_plan_def Let_def n_def [symmetric] c d
    by (simp split: prod.splits)
qed

lemma curl_plan_cases:
  assumes "curl_plan cfg param ch h = (a, auth, h1)"
    and "length (heads ch) < 2 ^ 30 - 8"
  shows "h1 = (case httpauth param of None \<Rightarrow> h | Some c \<Rightarrow> snd (malloc h))"
    and "a = Some (int (curl_strings cfg param ch h + 1))"
    and "(auth = Null
            \<and> curl_strings cfg param ch h
                = length (curl_base_args cfg) + 2 + 2 * length (heads ch) + 1)
         \<or> (\<exists>c. auth = Str c \<and> httpauth param = Some c
            \<and> curl_strings cfg param ch h
                = length (curl_base_args cfg) + 2 + 2 * length (heads ch) + 2 + 1)"
  using assms(1) [unfolded curl_plan_small [OF assms(2)]]
  by (auto simp: compat_strdup_def curl_strings_def
      split: option.splits prod.splits slot.splits if_splits)

lemma curl_argv_result:
  assumes "curl_plan cfg param ch h = (a, auth, h1)"
    and "length (heads ch) < 2 ^ 30 - 8"
  shows "if fst (malloc h1)
         then \<exists>vs. curl_argv cfg param url ch h = Inr (vs @ [Null, Uninit])
                \<and> length vs = curl_strings cfg param ch h \<and> Uninit \<notin> set vs
                \<and> (no_failure h \<longrightarrow>
                     vs = map Str (curl_command cfg url (heads ch) (curl_auth_args auth)))
         else curl_argv cfg param url ch h = Inl AllocFailed"
proof (cases "malloc h1")
  case (Pair ok h2)
  let ?n = "curl_strings cfg param ch h + 1"
  note pc = curl_plan_cases [OF assms]
  have n: "int (?n + 1) \<le> INT_MAX"
    using pc(3) assms(2) base_args_length(2) [of cfg] by (auto simp: INT_MAX_def)
  then have add: "int_add (int ?n) 1 = Some (int (?n + 1))"
    by (simp add: int_add_small)
  have slots: "block_slots (int (?n + 1)) = ?n + 1"
    using n block_slots_small [of "int (?n + 1)"] by (simp add: INT_MAX_def)
  show ?thesis
  proof (cases ok)
    case False
    with Pair assms(1) pc(2) add show ?thesis by (simp add: curl_argv_def)
  next
    case True
    have nf: "no_failure h \<longrightarrow> no_failure h2"
      using Pair malloc_no_failure [of h] malloc_no_failure [of h1]
      by (auto simp: pc(1) split: option.splits)
    from pc(3) show ?thesis
    proof (elim disjE conjE exE)
      assume c: "auth = Null"
        "curl_strings cfg param ch h
           = length (curl_base_args cfg) + 2 + 2 * length (heads ch) + 1"
      then have e: "?n = length (curl_base_args cfg) + 2 + 2 * length (heads ch) + 1 + 1"
        by simp
      from curl_chain_plain [OF e nf n, of url] show ?thesis
        using Pair True assms(1) pc(2) add slots c
        by (auto simp: curl_argv_def curl_auth_args_def)
    next
      fix c
      assume c: "auth = Str c"
        "curl_strings cfg param ch h
           = length (curl_base_args cfg) + 2 + 2 * length (heads ch) + 2 + 1"
      then have e: "?n = length (curl_base_args cfg) + 2 + 2 * length (heads ch) + 1 + 1 + 2"
        by simp
      from curl_chain_auth [OF e nf n, of c url] show ?thesis
        using Pair True assms(1) pc(2) add slots c
        by (auto simp: curl_argv_def curl_auth_args_def)
    qed
  qed
qed

lemma wget_block:
  assumes "length (heads ch) < 2 ^ 30 - 8"
  shows "wget_argv cfg param url ch h \<noteq> Inl UndefinedBehaviour"
    and "fst (wget_plan cfg param ch h) = Some (int (wget_strings cfg param ch h + 1))"
    and "wget_argv cfg param url ch h = Inr v \<Longrightarrow>
           length v = wget_strings cfg param ch h + 2
           \<and> (\<forall>i \<le> wget_strings cfg param ch h. v ! i \<noteq> Uninit)
           \<and> v ! wget_strings cfg param ch h = Null
           \<and> v ! (wget_strings cfg param ch h + 1) = Uninit"
    and "no_failure h \<Longrightarrow>
           \<exists>args. wget_argv cfg param url ch h = Inr (map Str args @ [Null, Uninit])
             \<and> length args = wget_strings cfg param ch h"
proof -
  obtain a user password h1 where w: "wget_plan cfg param ch h = (a, user, password, h1)"
    by (cases "wget_plan cfg param ch h") auto
  note pc = wget_plan_cases [OF w assms]
  note res = wget_argv_result [OF w assms, of url]
  show "fst (wget_plan cfg param ch h) = Some (int (wget_strings cfg param ch h + 1))"
    using pc(2) by (simp add: w)
  show "wget_argv cfg param url ch h \<noteq> Inl UndefinedBehaviour"
    using res by (auto split: if_splits)
  {
    assume "wget_argv cfg param url ch h = Inr v"
    with res obtain vs where
      vs: "v = vs @ [Null, Uninit]" "length vs = wget_strings cfg param ch h" "Uninit \<notin> set vs"
      by (auto split: if_splits)
    have "\<forall>i \<le> length vs. (vs @ [Null, Uninit]) ! i \<noteq> Uninit"
      using vs(3) by (auto simp: nth_append le_less dest: nth_mem)
    then show "length v = wget_strings cfg param ch h + 2
           \<and> (\<forall>i \<le> wget_strings cfg param ch h. v ! i \<noteq> Uninit)
           \<and> v ! wget_strings cfg param ch h = Null
           \<and> v ! (wget_strings cfg param ch h + 1) = Uninit"
      using vs(2) by (simp add: vs(1) nth_append)
  }
  {
    assume nf: "no_failure h"
    have "h1 = (case httpauth param of None \<Rightarrow> h | Some c \<Rightarrow> snd (malloc h))" by (rule pc(1))
    then have "fst (malloc h1)"
      using malloc_no_failure [of h] malloc_no_failure [of h1] nf
      by (auto split: option.splits)
    with res nf obtain vs where
      "wget_argv cfg param url ch h = Inr (vs @ [Null, Uninit])"
      "length vs = wget_strings cfg param ch h"
      "vs = map Str (wget_command cfg url (heads ch) (wget_auth_args user password))"
      by auto
    then show "\<exists>args. wget_argv cfg param url ch h = Inr (map Str args @ [Null, Uninit])
             \<and> length args = wget_strings cfg param ch h"
      by (intro exI [of _ "wget_command cfg url (heads ch) (wget_auth_args user password)"]) auto
  }
qed

lemma curl_block:
  assumes "length (heads ch) < 2 ^ 30 - 8"
  shows "curl_argv cfg param url ch h \<noteq> Inl UndefinedBehaviour"
    and "fst (curl_plan cfg param ch h) = Some (int (curl_strings cfg param ch h + 1))"
    and "curl_argv cfg param url ch h = Inr v \<Longrightarrow>
           length v = curl_strings cfg param ch h + 2
           \<and> (\<forall>i \<le> curl_strings cfg param ch h. v ! i \<noteq> Uninit)
           \<and> v ! curl_strings cfg param ch h = Null
           \<and> v ! (curl_strings cfg param ch h + 1) = Uninit"
    and "no_failure h \<Longrightarrow>
           \<exists>args. curl_argv cfg param url ch h = Inr (map Str args @ [Null, Uninit])
             \<and> length args = curl_strings cfg param ch h"
proof -
  obtain a auth h1 where w: "curl_plan cfg param ch h = (a, auth, h1)"
    by (cases "curl_plan cfg param ch h") auto
  note pc = curl_plan_cases [OF w assms]
  note res = curl_argv_result [OF w assms, of url]
  show "fst (curl_plan cfg param ch h) = Some (int (curl_strings cfg param ch h + 1))"
    using pc(2) by (simp add: w)
  show "curl_argv cfg param url ch h \<noteq> Inl UndefinedBehaviour"
    using res by (auto split: if_splits)
  {
    assume "curl_argv cfg param url ch h = Inr v"
    with res obtain vs where
      vs: "v = vs @ [Null, Uninit]" "length vs = curl_strings cfg param ch h" "Uninit \<notin> set vs"
      by (auto split: if_splits)
    have "\<forall>i \<le> length vs. (vs @ [Null, Uninit]) ! i \<noteq> Uninit"
      using vs(3) by (auto simp: nth_append le_less dest: nth_mem)
    then show "length v = curl_strings cfg param ch h + 2
           \<and> (\<forall>i \<le> curl_strings cfg param ch h. v ! i \<noteq> Uninit)
           \<and> v ! curl_strings cfg param ch h = Null
           \<and> v ! (curl_strings cfg param ch h + 1) = Uninit"
      using vs(2) by (simp add: vs(1) nth_append)
  }
  {
    assume nf: "no_failure h"
    have "h1 = (case httpauth param of None \<Rightarrow> h | Some c \<Rightarrow> snd (malloc h))" by (rule pc(1))
    then have "fst (malloc h1)"
      using malloc_no_failure [of h] malloc_no_failure [of h1] nf
      by (auto split: option.splits)
    with res nf obtain vs where
      "curl_argv cfg param url ch h = Inr (vs @ [Null, Uninit])"
      "length vs = curl_strings cfg param ch h"
      "vs = map Str (curl_command cfg url (heads ch) (curl_auth_args auth))"
      by auto
    then show "\<exists>args. curl_argv cfg param url ch h = Inr (map Str args @ [Null, Uninit])
             \<and> length args = curl_strings cfg param ch h"
      by (intro exI [of _ "curl_command cfg url (heads ch) (curl_auth_args auth)"]) auto
  }
qed

text \<open>
  Claim C3 as stated fails: for a request with no header and no credential, where no
  allocation fails, \<^verbatim>\<open>wget_argv\<close> returns a block of 8 slots, while the populated entries
  (six strings) and the terminating null pointer make 7; the last slot is allocated and
  never written.
\<close>

theorem vector_length_counterexample:
  "wget_argv cfg0 par0 ''http://h/a.mp3'' None []
     = Inr [Str ''wget'', Str ''--output-document=-'', Str ''--quiet'', Str ''--save-headers'',
            Str ''--user-agent=mpg123/1.26'', Str ''http://h/a.mp3'', Null, Uninit]
   \<and> length (projr (wget_argv cfg0 par0 ''http://h/a.mp3'' None [])) = 8
   \<and> length (c_args (projr (wget_argv cfg0 par0 ''http://h/a.mp3'' None []))) + 1 = 7"
proof -
  have ep: "wget_plan cfg0 par0 None [] = (Some 7, None, None, [])"
    by (simp add: wget_plan_def wget_base_args_def heads_def int_of_size_t_def int_add_def INT_MAX_def
        INT_MIN_def compat_strdup_def)
  have ea: "int_add 7 1 = Some 8"
    by (simp add: int_add_def INT_MAX_def INT_MIN_def)
  have eb: "block_slots 8 = 8"
    by (simp add: block_slots_def size_t_def)
  have e: "wget_argv cfg0 par0 ''http://h/a.mp3'' None []
     = Inr [Str ''wget'', Str ''--output-document=-'', Str ''--quiet'', Str ''--save-headers'',
            Str ''--user-agent=mpg123/1.26'', Str ''http://h/a.mp3'', Null, Uninit]"
    unfolding wget_argv_def ep
    by (simp add: ea eb wget_base_args_def heads_def put_dup_def
        put_cat_def put_def compat_strdup_def catstr_def INT_MAX_def numeral_eq_Suc)
  then show ?thesis by simp
qed

text \<open>
  Claim C3, amended. For a header list of fewer than \<open>2 ^ 30 - 8\<close> entries, so that no count
  leaves the range of \<^verbatim>\<open>int\<close>, neither builder overflows a count or stores outside its
  block. The count \<^verbatim>\<open>argc\<close> it computes is the number of strings the vector is to hold
  (fixed arguments, agent, headers, credential flags, URL) plus one for the null sentinel.
  A returned block has one slot more than that: the slots of the strings and of the sentinel
  are all written, the sentinel stands right after them, and exactly one further slot
  follows, which is never written. When no allocation fails, a block is returned and every
  entry before the sentinel is a string.
\<close>

theorem vector_length:
  assumes "length (heads ch) < 2 ^ 30 - 8"
  shows "wget_argv cfg param url ch h \<noteq> Inl UndefinedBehaviour
   \<and> fst (wget_plan cfg param ch h) = Some (int (wget_strings cfg param ch h + 1))
   \<and> (\<forall>v. wget_argv cfg param url ch h = Inr v \<longrightarrow>
         length v = wget_strings cfg param ch h + 2
         \<and> (\<forall>i \<le> wget_strings cfg param ch h. v ! i \<noteq> Uninit)
         \<and> v ! wget_strings cfg param ch h = Null
         \<and> v ! (wget_strings cfg param ch h + 1) = Uninit)
   \<and> (no_failure h \<longrightarrow>
         (\<exists>args. wget_argv cfg param url ch h = Inr (map Str args @ [Null, Uninit])
            \<and> length args = wget_strings cfg param ch h))
   \<and> curl_argv cfg param url ch h \<noteq> Inl UndefinedBehaviour
   \<and> fst (curl_plan cfg param ch h) = Some (int (curl_strings cfg param ch h + 1))
   \<and> (\<forall>v. curl_argv cfg param url ch h = Inr v \<longrightarrow>
         length v = curl_strings cfg param ch h + 2
         \<and> (\<forall>i \<le> curl_strings cfg param ch h. v ! i \<noteq> Uninit)
         \<and> v ! curl_strings cfg param ch h = Null
         \<and> v ! (curl_strings cfg param ch h + 1) = Uninit)
   \<and> (no_failure h \<longrightarrow>
         (\<exists>args. curl_argv cfg param url ch h = Inr (map Str args @ [Null, Uninit])
            \<and> length args = curl_strings cfg param ch h))"
proof (intro conjI allI impI)
  fix v
  show "wget_argv cfg param url ch h \<noteq> Inl UndefinedBehaviour"
    by (rule wget_block(1) [OF assms])
  show "fst (wget_plan cfg param ch h) = Some (int (wget_strings cfg param ch h + 1))"
    by (rule wget_block(2) [OF assms])
  show "curl_argv cfg param url ch h \<noteq> Inl UndefinedBehaviour"
    by (rule curl_block(1) [OF assms])
  show "fst (curl_plan cfg param ch h) = Some (int (curl_strings cfg param ch h + 1))"
    by (rule curl_block(2) [OF assms])
  show "\<exists>args. wget_argv cfg param url ch h = Inr (map Str args @ [Null, Uninit])
            \<and> length args = wget_strings cfg param ch h" if "no_failure h"
    using that by (rule wget_block(4) [OF assms])
  show "\<exists>args. curl_argv cfg param url ch h = Inr (map Str args @ [Null, Uninit])
            \<and> length args = curl_strings cfg param ch h" if "no_failure h"
    using that by (rule curl_block(4) [OF assms])
  show "length v = wget_strings cfg param ch h + 2"
    and "v ! wget_strings cfg param ch h = Null"
    and "v ! (wget_strings cfg param ch h + 1) = Uninit"
    if "wget_argv cfg param url ch h = Inr v"
    using wget_block(3) [OF assms that] by simp_all
  show "v ! i \<noteq> Uninit"
    if "wget_argv cfg param url ch h = Inr v" and "i \<le> wget_strings cfg param ch h" for i
    using wget_block(3) [OF assms that(1)] that(2) by simp
  show "length v = curl_strings cfg param ch h + 2"
    and "v ! curl_strings cfg param ch h = Null"
    and "v ! (curl_strings cfg param ch h + 1) = Uninit"
    if "curl_argv cfg param url ch h = Inr v"
    using curl_block(3) [OF assms that] by simp_all
  show "v ! i \<noteq> Uninit"
    if "curl_argv cfg param url ch h = Inr v" and "i \<le> curl_strings cfg param ch h" for i
    using curl_block(3) [OF assms that(1)] that(2) by simp
qed

text \<open>
  The amended C3 at a request with one header and a credential, for both builders.
\<close>

theorem vector_length_witness:
  "length (heads (Some [''Icy-MetaData: 1''])) < 2 ^ 30 - 8 \<and> no_failure []
   \<and> wget_argv cfg0 (par0\<lparr>httpauth := Some ''me:pw''\<rparr>) ''http://h/a.mp3'' (Some [''Icy-MetaData: 1'']) []
     = Inr [Str ''wget'', Str ''--output-document=-'', Str ''--quiet'', Str ''--save-headers'',
            Str ''--user-agent=mpg123/1.26'', Str ''--header=Icy-MetaData: 1'', Str ''--user=me'',
            Str ''--password=pw'', Str ''http://h/a.mp3'', Null, Uninit]
   \<and> wget_strings cfg0 (par0\<lparr>httpauth := Some ''me:pw''\<rparr>) (Some [''Icy-MetaData: 1'']) [] = 9
   \<and> fst (wget_plan cfg0 (par0\<lparr>httpauth := Some ''me:pw''\<rparr>) (Some [''Icy-MetaData: 1'']) [])
     = Some 10
   \<and> curl_argv cfg0 (par0\<lparr>httpauth := Some ''me:pw''\<rparr>) ''http://h/a.mp3'' (Some [''Icy-MetaData: 1'']) []
     = Inr [Str ''curl'', Str ''--silent'', Str ''--show-error'', Str ''--dump-header'', Str ''-'',
            Str ''--user-agent'', Str ''mpg123/1.26'', Str ''--header'', Str ''Icy-MetaData: 1'',
            Str ''--user'', Str ''me:pw'', Str ''http://h/a.mp3'', Null, Uninit]
   \<and> curl_strings cfg0 (par0\<lparr>httpauth := Some ''me:pw''\<rparr>) (Some [''Icy-MetaData: 1'']) [] = 12
   \<and> fst (curl_plan cfg0 (par0\<lparr>httpauth := Some ''me:pw''\<rparr>) (Some [''Icy-MetaData: 1'']) [])
     = Some 13"
proof -
  have b: "length (heads (Some [''Icy-MetaData: 1''])) < 2 ^ 30 - 8" by (simp add: heads_def)
  have wp: "wget_plan cfg0 (par0\<lparr>httpauth := Some ''me:pw''\<rparr>) (Some [''Icy-MetaData: 1'']) [] = (Some 10, Some ''me'', Some ''pw'', [])"
    by (simp add: wget_plan_def wget_base_args_def heads_def int_of_size_t_def int_add_def INT_MAX_def
        INT_MIN_def compat_strdup_def)
  have wa: "int_add 10 1 = Some 11"
    by (simp add: int_add_def INT_MAX_def INT_MIN_def)
  have wb: "block_slots 11 = 11"
    by (simp add: block_slots_def size_t_def)
  have w: "wget_argv cfg0 (par0\<lparr>httpauth := Some ''me:pw''\<rparr>) ''http://h/a.mp3'' (Some [''Icy-MetaData: 1'']) []
     = Inr [Str ''wget'', Str ''--output-document=-'', Str ''--quiet'', Str ''--save-headers'',
            Str ''--user-agent=mpg123/1.26'', Str ''--header=Icy-MetaData: 1'', Str ''--user=me'',
            Str ''--password=pw'', Str ''http://h/a.mp3'', Null, Uninit]"
    unfolding wget_argv_def wp
    by (simp add: wa wb wget_base_args_def heads_def put_dup_def
        put_cat_def put_def compat_strdup_def catstr_def INT_MAX_def numeral_eq_Suc)
  have cp: "curl_plan cfg0 (par0\<lparr>httpauth := Some ''me:pw''\<rparr>) (Some [''Icy-MetaData: 1'']) [] = (Some 13, Str ''me:pw'', [])"
    by (simp add: curl_plan_def curl_base_args_def heads_def int_of_size_t_def int_add_def INT_MAX_def
        INT_MIN_def compat_strdup_def)
  have ca: "int_add 13 1 = Some 14"
    by (simp add: int_add_def INT_MAX_def INT_MIN_def)
  have cb: "block_slots 14 = 14"
    by (simp add: block_slots_def size_t_def)
  have c: "curl_argv cfg0 (par0\<lparr>httpauth := Some ''me:pw''\<rparr>) ''http://h/a.mp3'' (Some [''Icy-MetaData: 1'']) []
     = Inr [Str ''curl'', Str ''--silent'', Str ''--show-error'', Str ''--dump-header'', Str ''-'',
            Str ''--user-agent'', Str ''mpg123/1.26'', Str ''--header'', Str ''Icy-MetaData: 1'',
            Str ''--user'', Str ''me:pw'', Str ''http://h/a.mp3'', Null, Uninit]"
    unfolding curl_argv_def cp
    by (simp add: ca cb curl_base_args_def heads_def put_dup_def
        put_cat_def put_def compat_strdup_def catstr_def INT_MAX_def numeral_eq_Suc)
  have ws: "wget_strings cfg0 (par0\<lparr>httpauth := Some ''me:pw''\<rparr>) (Some [''Icy-MetaData: 1'']) [] = 9"
    by (simp add: wget_strings_def wget_base_args_def heads_def)
  have cs: "curl_strings cfg0 (par0\<lparr>httpauth := Some ''me:pw''\<rparr>) (Some [''Icy-MetaData: 1'']) [] = 12"
    by (simp add: curl_strings_def curl_base_args_def heads_def)
  show ?thesis
    using vector_length [OF b, of cfg0 "par0\<lparr>httpauth := Some ''me:pw''\<rparr>" "''http://h/a.mp3''" "[]"]
      b w c
    unfolding ws cs wp cp by (simp add: no_failure_def)
qed

text \<open>
  Claim C4 at a call where the block and the first five strings are allocated and the
  allocation in \<^verbatim>\<open>catstr\<close> for the header fails: \<^verbatim>\<open>wget_argv\<close> still returns a block, with
  a null pointer where the header flag belongs, so that the command line \<^verbatim>\<open>execvp\<close> sees
  ends before the header and the URL.
\<close>

theorem partial_vector_counterexample:
  "wget_argv cfg0 par0 ''http://h/a.mp3'' (Some [''Icy-MetaData: 1''])
         [True, True, True, True, True, True, False]
     = Inr [Str ''wget'', Str ''--output-document=-'', Str ''--quiet'', Str ''--save-headers'',
            Str ''--user-agent=mpg123/1.26'', Null, Str ''http://h/a.mp3'', Null, Uninit]
   \<and> c_args (projr (wget_argv cfg0 par0 ''http://h/a.mp3'' (Some [''Icy-MetaData: 1''])
         [True, True, True, True, True, True, False]))
     = [''wget'', ''--output-document=-'', ''--quiet'', ''--save-headers'',
        ''--user-agent=mpg123/1.26'']"
proof -
  have ep: "wget_plan cfg0 par0 (Some [''Icy-MetaData: 1'']) [True, True, True, True, True, True, False] = (Some 8, None, None, [True, True, True, True, True, True, False])"
    by (simp add: wget_plan_def wget_base_args_def heads_def int_of_size_t_def int_add_def INT_MAX_def
        INT_MIN_def compat_strdup_def)
  have ea: "int_add 8 1 = Some 9"
    by (simp add: int_add_def INT_MAX_def INT_MIN_def)
  have eb: "block_slots 9 = 9"
    by (simp add: block_slots_def size_t_def)
  have e: "wget_argv cfg0 par0 ''http://h/a.mp3'' (Some [''Icy-MetaData: 1''])
         [True, True, True, True, True, True, False]
     = Inr [Str ''wget'', Str ''--output-document=-'', Str ''--quiet'', Str ''--save-headers'',
            Str ''--user-agent=mpg123/1.26'', Null, Str ''http://h/a.mp3'', Null, Uninit]"
    unfolding wget_argv_def ep
    by (simp add: ea eb wget_base_args_def heads_def put_dup_def
        put_cat_def put_def compat_strdup_def catstr_def INT_MAX_def numeral_eq_Suc)
  then show ?thesis by simp
qed

text \<open>
  Claim C10 as stated fails: when the copy of the credential cannot be allocated,
  \<^verbatim>\<open>curl_argv\<close> returns the command line of a request without credential; no \<^verbatim>\<open>--user\<close>
  flag is passed.
\<close>

theorem credential_dropped_counterexample:
  "curl_argv cfg0 (par0\<lparr>httpauth := Some ''token''\<rparr>) ''http://h/a.mp3'' None [False]
     = Inr [Str ''curl'', Str ''--silent'', Str ''--show-error'', Str ''--dump-header'', Str ''-'',
            Str ''--user-agent'', Str ''mpg123/1.26'', Str ''http://h/a.mp3'', Null, Uninit]"
proof -
  have ep: "curl_plan cfg0 (par0\<lparr>httpauth := Some ''token''\<rparr>) None [False] = (Some 9, Null, [])"
    by (simp add: curl_plan_def curl_base_args_def heads_def int_of_size_t_def int_add_def INT_MAX_def
        INT_MIN_def compat_strdup_def)
  have ea: "int_add 9 1 = Some 10"
    by (simp add: int_add_def INT_MAX_def INT_MIN_def)
  have eb: "block_slots 10 = 10"
    by (simp add: block_slots_def size_t_def)
  have e: "curl_argv cfg0 (par0\<lparr>httpauth := Some ''token''\<rparr>) ''http://h/a.mp3'' None [False]
     = Inr [Str ''curl'', Str ''--silent'', Str ''--show-error'', Str ''--dump-header'', Str ''-'',
            Str ''--user-agent'', Str ''mpg123/1.26'', Str ''http://h/a.mp3'', Null, Uninit]"
    unfolding curl_argv_def ep
    by (simp add: ea eb curl_base_args_def heads_def put_dup_def
        put_cat_def put_def compat_strdup_def catstr_def INT_MAX_def numeral_eq_Suc)
  then show ?thesis .
qed

text \<open>
  Claim C10, amended. For a credential without \<open>:\<close> the result of \<^verbatim>\<open>wget_argv\<close> is the one
  it gives with no credential at all (the copy of the credential only uses up one
  allocation), so it carries no authentication flag, whatever the allocations do. When no
  allocation fails and the header list has fewer than \<open>2 ^ 30 - 8\<close> entries, that result is
  the plain command line, and \<^verbatim>\<open>curl_argv\<close> passes any credential \<open>c\<close> whole, after
  \<^verbatim>\<open>--user\<close>.
\<close>

theorem credential_flags:
  "(CHR '':'' \<notin> set a \<longrightarrow>
      wget_argv cfg (param\<lparr>httpauth := Some a\<rparr>) url ch h
        = wget_argv cfg (param\<lparr>httpauth := None\<rparr>) url ch (snd (malloc h)))
   \<and> (CHR '':'' \<notin> set a \<and> no_failure h \<and> length (heads ch) < 2 ^ 30 - 8 \<longrightarrow>
        wget_argv cfg (param\<lparr>httpauth := Some a\<rparr>) url ch h
          = Inr (map Str (wget_command cfg url (heads ch) []) @ [Null, Uninit]))
   \<and> (no_failure h \<and> length (heads ch) < 2 ^ 30 - 8 \<longrightarrow>
        curl_argv cfg (param\<lparr>httpauth := Some c\<rparr>) url ch h
          = Inr (map Str (curl_command cfg url (heads ch) [''--user'', c]) @ [Null, Uninit]))"
proof (intro conjI impI)
  assume a: "CHR '':'' \<notin> set a"
  then have s: "strchr a CHR '':'' = None" by (simp add: strchr_None)
  have "wget_plan cfg (param\<lparr>httpauth := Some a\<rparr>) ch h
      = wget_plan cfg (param\<lparr>httpauth := None\<rparr>) ch (snd (malloc h))"
    using s by (simp add: wget_plan_def compat_strdup_def case_prod_beta)
  then show "wget_argv cfg (param\<lparr>httpauth := Some a\<rparr>) url ch h
           = wget_argv cfg (param\<lparr>httpauth := None\<rparr>) url ch (snd (malloc h))"
    by (simp only: wget_argv_def)
next
  assume a: "CHR '':'' \<notin> set a \<and> no_failure h \<and> length (heads ch) < 2 ^ 30 - 8"
  obtain n user password h1 where
    w: "wget_plan cfg (param\<lparr>httpauth := Some a\<rparr>) ch h = (n, user, password, h1)"
    by (cases "wget_plan cfg (param\<lparr>httpauth := Some a\<rparr>) ch h") auto
  from a have b: "length (heads ch) < 2 ^ 30 - 8" by simp
  have "user = None \<and> password = None"
    using wget_plan_cases(3) [OF w b] a by auto
  moreover have "h1 = snd (malloc h)" using wget_plan_cases(1) [OF w b] by simp
  then have "fst (malloc h1)"
    using a malloc_no_failure [of h] malloc_no_failure [of h1] by simp
  ultimately show "wget_argv cfg (param\<lparr>httpauth := Some a\<rparr>) url ch h
          = Inr (map Str (wget_command cfg url (heads ch) []) @ [Null, Uninit])"
    using wget_argv_result [OF w b, of url] a by (auto simp: wget_auth_args_def)
next
  assume a: "no_failure h \<and> length (heads ch) < 2 ^ 30 - 8"
  obtain n auth h1 where
    w: "curl_plan cfg (param\<lparr>httpauth := Some c\<rparr>) ch h = (n, auth, h1)"
    by (cases "curl_plan cfg (param\<lparr>httpauth := Some c\<rparr>) ch h") auto
  from a have b: "length (heads ch) < 2 ^ 30 - 8" by simp
  have "auth = Str c"
    using w a malloc_no_failure [of h]
    by (auto simp: curl_plan_def compat_strdup_def Let_def split: prod.splits slot.splits)
  moreover have "h1 = snd (malloc h)" using curl_plan_cases(1) [OF w b] by simp
  then have "fst (malloc h1)"
    using a malloc_no_failure [of h] malloc_no_failure [of h1] by simp
  ultimately show "curl_argv cfg (param\<lparr>httpauth := Some c\<rparr>) url ch h
          = Inr (map Str (curl_command cfg url (heads ch) [''--user'', c]) @ [Null, Uninit])"
    using curl_argv_result [OF w b, of url] a by (auto simp: curl_auth_args_def)
qed

text \<open>
  The amended C10 at the credential \<^verbatim>\<open>token\<close>.
\<close>

theorem credential_flags_witness:
  "CHR '':'' \<notin> set ''token'' \<and> no_failure [] \<and> length (heads None) < 2 ^ 30 - 8
   \<and> wget_argv cfg0 (par0\<lparr>httpauth := Some ''token''\<rparr>) ''http://h/a.mp3'' None []
       = Inr [Str ''wget'', Str ''--output-document=-'', Str ''--quiet'', Str ''--save-headers'',
            Str ''--user-agent=mpg123/1.26'', Str ''http://h/a.mp3'', Null, Uninit]
   \<and> curl_argv cfg0 (par0\<lparr>httpauth := Some ''token''\<rparr>) ''http://h/a.mp3'' None []
       = Inr [Str ''curl'', Str ''--silent'', Str ''--show-error'', Str ''--dump-header'', Str ''-'',
            Str ''--user-agent'', Str ''mpg123/1.26'', Str ''--user'', Str ''token'',
            Str ''http://h/a.mp3'', Null, Uninit]"
proof -
  have a: "CHR '':'' \<notin> set ''token''" by simp
  have n: "no_failure []" by (simp add: no_failure_def)
  have b: "length (heads None) < 2 ^ 30 - 8" by (simp add: heads_def)
  from credential_flags [where a = "''token''" and cfg = cfg0 and param = par0
      and url = "''http://h/a.mp3''" and ch = None and h = "[]" and c = "''token''"] a n b
  have "wget_argv cfg0 (par0\<lparr>httpauth := Some ''token''\<rparr>) ''http://h/a.mp3'' None []
          = Inr (map Str (wget_command cfg0 ''http://h/a.mp3'' (heads None) []) @ [Null, Uninit])"
    and "curl_argv cfg0 (par0\<lparr>httpauth := Some ''token''\<rparr>) ''http://h/a.mp3'' None []
          = Inr (map Str (curl_command cfg0 ''http://h/a.mp3'' (heads None) [''--user'', ''token''])
                  @ [Null, Uninit])"
    by blast+
  then show ?thesis
    using a n b
    by (simp add: wget_command_def curl_command_def wget_base_args_def
        curl_base_args_def heads_def)
qed

section \<open>Properties of selection, opening, reading and closing\<close>

lemma probes_emit [simp]:
  "probes (emit ev w) av = probes w av + (if ev = Probe av then 1 else 0)"
  by (simp add: probes_def emit_def)

lemma emit_fields [simp]:
  "got_curl (emit ev w) = got_curl w" "got_wget (emit ev w) = got_wget w"
  "fds (emit ev w) = fds w" "trace (emit ev w) = trace w @ [ev]"
  by (simp_all add: emit_def)

lemma probes_update [simp]:
  "probes (w\<lparr>got_curl := c\<rparr>) av = probes w av"
  "probes (w\<lparr>got_wget := g\<rparr>) av = probes w av"
  "probes (w\<lparr>fds := s\<rparr>) av = probes w av"
  by (simp_all add: probes_def)

lemma check_program_effect:
  assumes "check_program av pe w = (r, w')"
  shows "got_curl w' = got_curl w" and "got_wget w' = got_wget w" and "fds w' = fds w"
    and "probes w' x = probes w x + (if x = av then 1 else 0)"
    and "r = Ret c \<Longrightarrow> c = 0 \<or> c = 1"
  using assms by (auto simp: check_program_def Let_def split: if_splits)

lemma check_program_value:
  "pe_fork pe \<noteq> 0 \<Longrightarrow>
     fst (check_program av pe w)
       = Ret (if 0 < pe_fork pe \<and> pe_wait pe \<and> pe_exec pe = Some (Exited 0) then 1 else 0)"
  by (cases "pe_exec pe"; cases "the (pe_exec pe)")
     (auto simp: check_program_def Let_def probe_child_def)

lemma versions_differ [simp]: "curl_version \<noteq> wget_version" "wget_version \<noteq> curl_version"
  by (simp_all add: curl_version_def wget_version_def)

lemma select_explicit:
  "network_backend param = ''wget'' \<or> network_backend param = ''curl'' \<Longrightarrow>
     select_backend param e w
       = (Ret (Some (if network_backend param = ''curl'' then 1 else 0)), w)"
  by (auto simp: select_backend_def)

lemma select_invalid:
  "network_backend param \<notin> {''auto'', ''wget'', ''curl''} \<Longrightarrow>
     select_backend param e w = (Ret None, emit (Log (Invalid_backend (network_backend param))) w)"
  by (simp add: select_backend_def)

lemma select_auto:
  assumes "network_backend param = ''auto''"
    and "got_curl w < 0" and "got_wget w < 0"
    and "check_program curl_version (probe_curl e) w = (Ret c, w1)"
    and "check_program wget_version (probe_wget e) (w1\<lparr>got_curl := c\<rparr>) = (Ret g, w2)"
  shows "select_backend param e w
           = (Ret (Some (if g = 1 then 0 else if c = 1 then 1 else 0)), w2\<lparr>got_wget := g\<rparr>)"
proof -
  have c: "c = 0 \<or> c = 1" using check_program_effect(5) [OF assms(4)] by simp
  have g: "g = 0 \<or> g = 1" using check_program_effect(5) [OF assms(5)] by simp
  have w1: "got_wget w1 = got_wget w" using check_program_effect(2) [OF assms(4)] .
  have w2: "got_curl w2 = c" using check_program_effect(1) [OF assms(5)] by simp
  show ?thesis
    using assms c g w1 w2 by (auto simp: select_backend_def)
qed

lemma select_cached:
  assumes "network_backend param = ''auto''" and "0 \<le> got_curl w" and "0 \<le> got_wget w"
  shows "select_backend param e w
           = (Ret (Some (if got_wget w < 1 \<and> got_curl w = 1 then 1 else 0)), w)"
  using assms by (simp add: select_backend_def)

lemma select_inv:
  assumes "cache_inv w" and "select_backend param e w = (r, w')"
  shows "probes w' curl_version \<le> 1 \<and> probes w' wget_version \<le> 1
         \<and> (\<forall>x. r = Ret x \<longrightarrow> cache_inv w')"
proof (cases "network_backend param = ''auto''")
  case False
  with assms show ?thesis
    by (auto simp: select_backend_def cache_inv_def split: if_splits)
next
  case auto: True
  obtain rc wc where pc: "check_program curl_version (probe_curl e) w = (rc, wc)"
    by (cases "check_program curl_version (probe_curl e) w") auto
  note ec = check_program_effect [OF pc]
  define w1 where "w1 = (if got_curl w < 0 then (case rc of Ret c \<Rightarrow> wc\<lparr>got_curl := c\<rparr> | _ \<Rightarrow> wc) else w)"
  obtain rg wg where pg: "check_program wget_version (probe_wget e) w1 = (rg, wg)"
    by (cases "check_program wget_version (probe_wget e) w1") auto
  note eg = check_program_effect [OF pg]
  show ?thesis
  proof (cases "got_curl w < 0")
    case cu: True
    show ?thesis
    proof (cases rc)
      case (Child x)
      with assms auto cu pc ec(4) [of curl_version] ec(4) [of wget_version] show ?thesis
        by (auto simp: select_backend_def cache_inv_def)
    next
      case (Ret c)
      then have w1: "w1 = wc\<lparr>got_curl := c\<rparr>" using cu by (simp add: w1_def)
      have c: "0 \<le> c" using ec(5) [OF Ret] by auto
      show ?thesis
      proof (cases "got_wget w < 0")
        case False
        with assms auto cu pc Ret c ec(2) ec(4) [of curl_version] ec(4) [of wget_version]
        show ?thesis by (auto simp: select_backend_def cache_inv_def)
      next
        case gu: True
        show ?thesis
        proof (cases rg)
          case (Child y)
          with assms auto cu gu pc pg Ret w1 ec(2) ec(4) [of curl_version]
            ec(4) [of wget_version] eg(4) [of curl_version] eg(4) [of wget_version]
          show ?thesis by (auto simp: select_backend_def cache_inv_def)
        next
          case g: (Ret g)
          have "0 \<le> g" using eg(5) [OF g] by auto
          with assms auto cu gu pc pg Ret g w1 c ec(2) eg(1) ec(4) [of curl_version]
            ec(4) [of wget_version] eg(4) [of curl_version] eg(4) [of wget_version]
          show ?thesis by (auto simp: select_backend_def cache_inv_def)
        qed
      qed
    qed
  next
    case cu: False
    then have w1: "w1 = w" by (simp add: w1_def)
    show ?thesis
    proof (cases "got_wget w < 0")
      case False
      with assms auto cu show ?thesis by (auto simp: select_backend_def cache_inv_def)
    next
      case gu: True
      show ?thesis
      proof (cases rg)
        case (Child y)
        with assms auto cu gu pg w1 eg(4) [of curl_version] eg(4) [of wget_version]
        show ?thesis by (auto simp: select_backend_def cache_inv_def)
      next
        case g: (Ret g)
        have "0 \<le> g" using eg(5) [OF g] by auto
        with assms auto cu gu pg g w1 eg(1) eg(4) [of curl_version] eg(4) [of wget_version]
        show ?thesis by (auto simp: select_backend_def cache_inv_def)
      qed
    qed
  qed
qed

lemma open_after_select:
  assumes "net123_open cfg param e url ch w = (r, w')"
    and "select_backend param e w = (r0, w1)"
  shows "got_curl w' = got_curl w1 \<and> got_wget w' = got_wget w1
         \<and> probes w' x = probes w1 x \<and> (\<forall>c. r0 = Child c \<longrightarrow> r = Child c)
         \<and> (\<forall>c. r = Child c \<longrightarrow> r0 \<noteq> Ret None)"
  using assms
  by (auto simp: net123_open_def Let_def split: ret.splits option.splits if_splits prod.splits)

lemma cache_inv_initial: "cache_inv initial_world"
  by (simp add: cache_inv_def initial_world_def probes_def)

lemma opens_probes:
  "cache_inv w \<Longrightarrow>
     probes (opens cfg cs w) curl_version \<le> 1 \<and> probes (opens cfg cs w) wget_version \<le> 1"
proof (induction cs arbitrary: w)
  case Nil
  then show ?case by (simp add: cache_inv_def)
next
  case (Cons call cs)
  obtain param e url ch where call: "call = (param, e, url, ch)" by (cases call) auto
  obtain r w' where op: "net123_open cfg param e url ch w = (r, w')"
    by (cases "net123_open cfg param e url ch w") auto
  obtain r0 w1 where sel: "select_backend param e w = (r0, w1)"
    by (cases "select_backend param e w") auto
  note si = select_inv [OF Cons.prems sel]
  note oa = open_after_select [OF op sel]
  show ?case
  proof (cases r)
    case (Child c)
    with call op si oa show ?thesis by simp
  next
    case (Ret x)
    with oa obtain y where "r0 = Ret y" by (cases r0) auto
    with si have "cache_inv w1" by simp
    with oa have "cache_inv w'" by (simp add: cache_inv_def)
    from Cons.IH [OF this] call op Ret show ?thesis by simp
  qed
qed

lemma select_known:
  assumes "select_backend param e w = (r, w')"
  shows "0 \<le> got_curl w \<Longrightarrow> probes w' curl_version = probes w curl_version \<and> got_curl w' = got_curl w"
    and "0 \<le> got_wget w \<Longrightarrow> probes w' wget_version = probes w wget_version \<and> got_wget w' = got_wget w"
proof -
  obtain rc wc where pc: "check_program curl_version (probe_curl e) w = (rc, wc)"
    by (cases "check_program curl_version (probe_curl e) w") auto
  note ec = check_program_effect [OF pc]
  {
    assume k: "0 \<le> got_curl w"
    obtain rg wg where pg: "check_program wget_version (probe_wget e) w = (rg, wg)"
      by (cases "check_program wget_version (probe_wget e) w") auto
    note eg = check_program_effect [OF pg]
    show "probes w' curl_version = probes w curl_version \<and> got_curl w' = got_curl w"
      using assms k pg eg(1) eg(4) [of curl_version]
      by (auto simp: select_backend_def split: if_splits ret.splits)
  }
  {
    assume k: "0 \<le> got_wget w"
    show "probes w' wget_version = probes w wget_version \<and> got_wget w' = got_wget w"
      using assms k pc ec(2) ec(4) [of wget_version]
      by (auto simp: select_backend_def split: if_splits ret.splits)
  }
qed

lemma unintr_read_retry:
  "unintr_read d n (replicate k Interrupted @ Completed c # rest) w
     = Some (report n c, w\<lparr>trace := trace w @ replicate (Suc k) (Read d)\<rparr>)"
proof (induction k arbitrary: w)
  case 0
  show ?case by (simp add: emit_def)
next
  case (Suc k)
  have "trace w @ Read d # Read d # replicate k (Read d)
          = trace w @ Read d # replicate k (Read d) @ [Read d]"
    using replicate_append_same [of k "Read d"] by simp
  with Suc show ?case by (simp add: emit_def replicate_append_same)
qed

text \<open>
  Claim C1 at a call where the pipe is created (descriptors 3 and 4) and \<^verbatim>\<open>fork\<close> then
  fails: \<^verbatim>\<open>net123_open\<close> returns no handle and frees the handle's storage, but it closes
  neither end of the pipe; both descriptors are still open when it returns.
\<close>

theorem fork_failure_keeps_pipe_open:
  "net123_open cfg0 (par0\<lparr>network_backend := ''wget''\<rparr>) (env0\<lparr>fork_ret := - 1\<rparr>)
       ''http://h/a.mp3'' None initial_world
     = (Ret None,
        \<lparr>got_curl = - 1, got_wget = - 1, fds = {0, 1, 2, 3, 4},
         trace = [Malloc, Pipe, Fork (- 1), Log Fork_failed, Free]\<rparr>)"
  by (auto simp: net123_open_def select_backend_def initial_world_def emit_def)

text \<open>
  Claim C2. Under the policy \<^verbatim>\<open>auto\<close>, when neither flag is known both probes run, and for
  all outcomes \<open>c\<close> of the probe of curl and \<open>g\<close> of the probe of wget (each 0 or 1) the
  selector chooses wget when wget is present, curl when wget is absent and curl present,
  and wget when both are absent. When both flags are known the same table is applied to
  the flags and nothing else happens.
\<close>

theorem auto_selection_table:
  assumes "network_backend param = ''auto''"
  shows "(got_curl w < 0 \<and> got_wget w < 0
            \<and> check_program curl_version (probe_curl e) w = (Ret c, wc)
            \<and> check_program wget_version (probe_wget e) (wc\<lparr>got_curl := c\<rparr>) = (Ret g, wg)
          \<longrightarrow> select_backend param e w
                = (Ret (Some (if g = 1 then 0 else if c = 1 then 1 else 0)), wg\<lparr>got_wget := g\<rparr>)
              \<and> (c = 0 \<or> c = 1) \<and> (g = 0 \<or> g = 1))
       \<and> (0 \<le> got_curl w \<and> 0 \<le> got_wget w \<and> got_wget w \<le> 1
          \<longrightarrow> select_backend param e w
                = (Ret (Some (if got_wget w = 1 then 0 else if got_curl w = 1 then 1 else 0)), w))"
proof (intro conjI impI)
  assume a: "got_curl w < 0 \<and> got_wget w < 0
            \<and> check_program curl_version (probe_curl e) w = (Ret c, wc)
            \<and> check_program wget_version (probe_wget e) (wc\<lparr>got_curl := c\<rparr>) = (Ret g, wg)"
  then have pc: "check_program curl_version (probe_curl e) w = (Ret c, wc)"
    and pg: "check_program wget_version (probe_wget e) (wc\<lparr>got_curl := c\<rparr>) = (Ret g, wg)"
    by simp_all
  from a select_auto [OF assms _ _ pc pg]
  show "select_backend param e w
                = (Ret (Some (if g = 1 then 0 else if c = 1 then 1 else 0)), wg\<lparr>got_wget := g\<rparr>)"
    by simp
  from check_program_effect(5) [OF pc] show "c = 0 \<or> c = 1" by simp
  from check_program_effect(5) [OF pg] show "g = 0 \<or> g = 1" by simp
next
  assume "0 \<le> got_curl w \<and> 0 \<le> got_wget w \<and> got_wget w \<le> 1"
  with select_cached [OF assms, of w e]
  show "select_backend param e w
                = (Ret (Some (if got_wget w = 1 then 0 else if got_curl w = 1 then 1 else 0)), w)"
    by auto
qed

text \<open>
  C2 in the first call of a process where curl is found and wget is not, and in a later
  call where both are known to be present.
\<close>

theorem auto_selection_table_witness:
  "network_backend par0 = ''auto'' \<and> got_curl initial_world < 0 \<and> got_wget initial_world < 0
   \<and> check_program curl_version (probe_curl env0) initial_world
       = (Ret 1, initial_world\<lparr>trace := [Probe curl_version, Fork 101, Waitpid 101]\<rparr>)
   \<and> check_program wget_version (probe_wget env0)
         (initial_world\<lparr>trace := [Probe curl_version, Fork 101, Waitpid 101], got_curl := 1\<rparr>)
       = (Ret 0, initial_world\<lparr>trace := [Probe curl_version, Fork 101, Waitpid 101,
                                            Probe wget_version, Fork 102, Waitpid 102],
                                  got_curl := 1\<rparr>)
   \<and> select_backend par0 env0 initial_world
       = (Ret (Some 1),
          initial_world\<lparr>trace := [Probe curl_version, Fork 101, Waitpid 101,
                                   Probe wget_version, Fork 102, Waitpid 102],
                        got_curl := 1, got_wget := 0\<rparr>)
   \<and> select_backend par0 env0 (initial_world\<lparr>got_curl := 1, got_wget := 1\<rparr>)
       = (Ret (Some 0), initial_world\<lparr>got_curl := 1, got_wget := 1\<rparr>)"
proof -
  have a: "network_backend par0 = ''auto''" by simp
  have b: "got_curl initial_world < 0" "got_wget initial_world < 0"
    by (simp_all add: initial_world_def)
  have c: "check_program curl_version (probe_curl env0) initial_world
       = (Ret 1, initial_world\<lparr>trace := [Probe curl_version, Fork 101, Waitpid 101]\<rparr>)"
    by (simp add: check_program_def probe_child_def emit_def initial_world_def)
  have d: "check_program wget_version (probe_wget env0)
         ((initial_world\<lparr>trace := [Probe curl_version, Fork 101, Waitpid 101]\<rparr>)\<lparr>got_curl := 1\<rparr>)
       = (Ret 0, initial_world\<lparr>trace := [Probe curl_version, Fork 101, Waitpid 101,
                                            Probe wget_version, Fork 102, Waitpid 102],
                                  got_curl := 1\<rparr>)"
    by (simp add: check_program_def probe_child_def emit_def initial_world_def)
  show ?thesis
    using auto_selection_table [OF a, where w = initial_world and e = env0 and c = 1
        and wc = "initial_world\<lparr>trace := [Probe curl_version, Fork 101, Waitpid 101]\<rparr>"
        and g = 0
        and wg = "initial_world\<lparr>trace := [Probe curl_version, Fork 101, Waitpid 101,
                                            Probe wget_version, Fork 102, Waitpid 102],
                                  got_curl := 1\<rparr>"]
      auto_selection_table [OF a, where w = "initial_world\<lparr>got_curl := 1, got_wget := 1\<rparr>"
        and e = env0]
      a b c d
    by (simp add: initial_world_def)
qed

text \<open>
  Claim C5. For a policy other than \<^verbatim>\<open>auto\<close>, \<^verbatim>\<open>wget\<close> and \<^verbatim>\<open>curl\<close>,
  \<^verbatim>\<open>net123_open\<close> returns no handle and its only effect is the error message: no process
  is forked, no pipe is created, no descriptor is opened.
\<close>

theorem invalid_backend_rejected:
  assumes "network_backend param \<notin> {''auto'', ''wget'', ''curl''}"
  shows "net123_open cfg param e url ch w
           = (Ret None, emit (Log (Invalid_backend (network_backend param))) w)"
  using select_invalid [OF assms] by (simp add: net123_open_def)

text \<open>
  C5 at the policy \<^verbatim>\<open>ftp\<close>.
\<close>

theorem invalid_backend_rejected_witness:
  "''ftp'' \<notin> {''auto'', ''wget'', ''curl''}
   \<and> net123_open cfg0 (par0\<lparr>network_backend := ''ftp''\<rparr>) env0 ''http://h/a.mp3'' None initial_world
       = (Ret None, initial_world\<lparr>trace := [Log (Invalid_backend ''ftp'')]\<rparr>)"
proof -
  have a: "network_backend (par0\<lparr>network_backend := ''ftp''\<rparr>) \<notin> {''auto'', ''wget'', ''curl''}"
    by simp
  show ?thesis
    using invalid_backend_rejected [OF a, of cfg0 env0 "''http://h/a.mp3''" None initial_world]
    by (simp add: emit_def initial_world_def)
qed

text \<open>
  Claim C9. For the policy \<^verbatim>\<open>wget\<close> or \<^verbatim>\<open>curl\<close> the selection step returns that backend
  and leaves the whole state as it was; after \<^verbatim>\<open>net123_open\<close> both flags have their old
  values and no probe has been added to the calls made.
\<close>

theorem explicit_backend_no_probe:
  assumes "network_backend param = ''wget'' \<or> network_backend param = ''curl''"
  shows "select_backend param e w
           = (Ret (Some (if network_backend param = ''curl'' then 1 else 0)), w)
         \<and> got_curl (snd (net123_open cfg param e url ch w)) = got_curl w
         \<and> got_wget (snd (net123_open cfg param e url ch w)) = got_wget w
         \<and> probes (snd (net123_open cfg param e url ch w)) av = probes w av"
proof -
  note s = select_explicit [OF assms, of e w]
  obtain r w' where op: "net123_open cfg param e url ch w = (r, w')"
    by (cases "net123_open cfg param e url ch w") auto
  from open_after_select [OF op s, of av] s show ?thesis by (simp add: op)
qed

text \<open>
  C9 at the policy \<^verbatim>\<open>curl\<close>, in a process that has not probed yet.
\<close>

theorem explicit_backend_no_probe_witness:
  "select_backend (par0\<lparr>network_backend := ''curl''\<rparr>) env0 initial_world
     = (Ret (Some 1), initial_world)
   \<and> net123_open cfg0 (par0\<lparr>network_backend := ''curl''\<rparr>) env0 ''http://h/a.mp3'' None initial_world
     = (Ret (Some \<lparr>fd = 3, worker = 103\<rparr>),
        \<lparr>got_curl = - 1, got_wget = - 1, fds = {0, 1, 2, 3},
         trace = [Malloc, Pipe, Fork 103, Close 4]\<rparr>)"
proof -
  have a: "network_backend (par0\<lparr>network_backend := ''curl''\<rparr>) = ''wget''
           \<or> network_backend (par0\<lparr>network_backend := ''curl''\<rparr>) = ''curl''"
    by simp
  have "net123_open cfg0 (par0\<lparr>network_backend := ''curl''\<rparr>) env0 ''http://h/a.mp3'' None initial_world
     = (Ret (Some \<lparr>fd = 3, worker = 103\<rparr>),
        \<lparr>got_curl = - 1, got_wget = - 1, fds = {0, 1, 2, 3},
         trace = [Malloc, Pipe, Fork 103, Close 4]\<rparr>)"
    by (auto simp: net123_open_def select_backend_def initial_world_def emit_def)
  with explicit_backend_no_probe [OF a, of env0 initial_world cfg0 "''http://h/a.mp3''" None]
  show ?thesis by simp
qed

text \<open>
  Claim C6 as stated fails: the child ends normally with exit code 0, \<^verbatim>\<open>waitpid\<close> does not
  return the child's pid, and the prober answers 0.
\<close>

theorem probe_result_counterexample:
  "status_of (probe_child curl_version (found\<lparr>pe_wait := False\<rparr>)) = Exited 0
   \<and> check_program curl_version (found\<lparr>pe_wait := False\<rparr>) initial_world
       = (Ret 0, initial_world\<lparr>trace := [Probe curl_version, Fork 101, Waitpid 101]\<rparr>)"
  by (simp add: check_program_def probe_child_def emit_def initial_world_def)

text \<open>
  Claim C6, amended. In the process that calls it, the prober answers 1 or 0, and it answers
  1 exactly when \<^verbatim>\<open>fork\<close> succeeded, \<^verbatim>\<open>waitpid\<close> returned the child's pid and the child
  ended normally with exit code 0; a failed \<^verbatim>\<open>fork\<close>, a failed \<^verbatim>\<open>execvp\<close> and a failed
  \<^verbatim>\<open>waitpid\<close> all give 0. A flag that is known is used as it is, without a probe, and in
  any sequence of calls of \<^verbatim>\<open>net123_open\<close> of a process that starts with both flags
  unknown each backend is probed at most once.
\<close>

theorem probe_result:
  "(pe_fork pe \<noteq> 0 \<longrightarrow>
      (fst (check_program av pe w) = Ret 1 \<or> fst (check_program av pe w) = Ret 0)
      \<and> (fst (check_program av pe w) = Ret 1 \<longleftrightarrow>
           0 < pe_fork pe \<and> pe_wait pe \<and> status_of (probe_child av pe) = Exited 0))
   \<and> (pe_fork pe < 0 \<or> (0 < pe_fork pe \<and> (pe_exec pe = None \<or> \<not> pe_wait pe)) \<longrightarrow>
        fst (check_program av pe w) = Ret 0)
   \<and> (0 \<le> got_curl w \<longrightarrow>
        probes (snd (select_backend param e w)) curl_version = probes w curl_version
        \<and> got_curl (snd (select_backend param e w)) = got_curl w)
   \<and> (0 \<le> got_wget w \<longrightarrow>
        probes (snd (select_backend param e w)) wget_version = probes w wget_version
        \<and> got_wget (snd (select_backend param e w)) = got_wget w)
   \<and> probes (opens cfg cs initial_world) curl_version \<le> 1
   \<and> probes (opens cfg cs initial_world) wget_version \<le> 1"
proof -
  have st: "status_of (probe_child av pe) = Exited 0 \<longleftrightarrow> pe_exec pe = Some (Exited 0)"
    by (cases "pe_exec pe") (simp_all add: probe_child_def)
  have a: "pe_fork pe \<noteq> 0 \<longrightarrow>
      (fst (check_program av pe w) = Ret 1 \<or> fst (check_program av pe w) = Ret 0)
      \<and> (fst (check_program av pe w) = Ret 1 \<longleftrightarrow>
           0 < pe_fork pe \<and> pe_wait pe \<and> status_of (probe_child av pe) = Exited 0)"
    using check_program_value [of pe av w] by (simp add: st)
  have b: "pe_fork pe < 0 \<or> (0 < pe_fork pe \<and> (pe_exec pe = None \<or> \<not> pe_wait pe)) \<longrightarrow>
        fst (check_program av pe w) = Ret 0"
    using check_program_value [of pe av w] by auto
  obtain r w' where sel: "select_backend param e w = (r, w')"
    by (cases "select_backend param e w") auto
  have c: "0 \<le> got_curl w \<longrightarrow>
        probes (snd (select_backend param e w)) curl_version = probes w curl_version
        \<and> got_curl (snd (select_backend param e w)) = got_curl w"
    using select_known(1) [OF sel] by (simp add: sel)
  have d: "0 \<le> got_wget w \<longrightarrow>
        probes (snd (select_backend param e w)) wget_version = probes w wget_version
        \<and> got_wget (snd (select_backend param e w)) = got_wget w"
    using select_known(2) [OF sel] by (simp add: sel)
  from a b c d opens_probes [OF cache_inv_initial, of cfg cs] show ?thesis by blast
qed

text \<open>
  The amended C6 at a probe that finds its program, at one whose \<^verbatim>\<open>execvp\<close> fails, at
  a state with both flags known, and in two successive calls under \<^verbatim>\<open>auto\<close>.
\<close>

theorem probe_result_witness:
  "pe_fork found \<noteq> 0
   \<and> fst (check_program curl_version found initial_world) = Ret 1
   \<and> 0 < pe_fork missing \<and> pe_exec missing = None
   \<and> fst (check_program wget_version missing initial_world) = Ret 0
   \<and> 0 \<le> got_curl (initial_world\<lparr>got_curl := 1, got_wget := 0\<rparr>)
   \<and> 0 \<le> got_wget (initial_world\<lparr>got_curl := 1, got_wget := 0\<rparr>)
   \<and> select_backend par0 env0 (initial_world\<lparr>got_curl := 1, got_wget := 0\<rparr>)
       = (Ret (Some 1), initial_world\<lparr>got_curl := 1, got_wget := 0\<rparr>)
   \<and> probes (opens cfg0 [(par0, env0, ''http://h/a.mp3'', None), (par0, env0, ''http://h/b.mp3'', None)]
               initial_world) curl_version = 1"
proof -
  have "probes (opens cfg0 [(par0, env0, ''http://h/a.mp3'', None), (par0, env0, ''http://h/b.mp3'', None)]
               initial_world) curl_version = 1"
    by (simp add: net123_open_def select_backend_def check_program_def probe_child_def
        initial_world_def emit_def probes_def curl_version_def wget_version_def)
  moreover have "select_backend par0 env0 (initial_world\<lparr>got_curl := 1, got_wget := 0\<rparr>)
       = (Ret (Some 1), initial_world\<lparr>got_curl := 1, got_wget := 0\<rparr>)"
    by (simp add: select_backend_def initial_world_def)
  ultimately show ?thesis
    using probe_result [where pe = found and av = curl_version and w = initial_world]
      probe_result [where pe = missing and av = wget_version and w = initial_world]
      probe_result [where w = "initial_world\<lparr>got_curl := 1, got_wget := 0\<rparr>" and param = par0
        and e = env0]
    by (simp add: probe_child_def initial_world_def)
qed

text \<open>
  Claim C7. With a null handle, or a null buffer and a positive size, \<^verbatim>\<open>net123_read\<close>
  returns 0 and makes no call at all. Otherwise it reads from the descriptor of the handle
  and from no other: \<open>k\<close> attempts interrupted by a signal are each retried, and the first
  attempt that completes ends the call with what that attempt reports.
\<close>

theorem read_guard:
  "(nh = None \<or> (buf = None \<and> 0 < bufsize) \<longrightarrow>
      net123_read nh buf bufsize rs w = Some (0, w))
   \<and> (\<not> (buf = None \<and> 0 < bufsize) \<longrightarrow>
        net123_read (Some h) buf bufsize (replicate k Interrupted @ Completed c # rest) w
          = Some (report bufsize c, w\<lparr>trace := trace w @ replicate (Suc k) (Read (fd h))\<rparr>))"
proof (intro conjI impI)
  assume "nh = None \<or> (buf = None \<and> 0 < bufsize)"
  then show "net123_read nh buf bufsize rs w = Some (0, w)"
    by (auto simp: net123_read_def split: option.splits)
next
  assume a: "\<not> (buf = None \<and> 0 < bufsize)"
  then have "net123_read (Some h) buf bufsize (replicate k Interrupted @ Completed c # rest) w
      = unintr_read (fd h) bufsize (replicate k Interrupted @ Completed c # rest) w"
    by (auto simp: net123_read_def)
  then show "net123_read (Some h) buf bufsize (replicate k Interrupted @ Completed c # rest) w
          = Some (report bufsize c, w\<lparr>trace := trace w @ replicate (Suc k) (Read (fd h))\<rparr>)"
    by (simp add: unintr_read_retry)
qed

text \<open>
  C7 at a null handle, at a null buffer of size 16, and at a read that is interrupted twice
  before five bytes arrive.
\<close>

theorem read_guard_witness:
  "net123_read None (Some 0) 16 [Completed (Data 5)] initial_world = Some (0, initial_world)
   \<and> net123_read (Some \<lparr>fd = 3, worker = 103\<rparr>) None 16 [Completed (Data 5)] initial_world
       = Some (0, initial_world)
   \<and> net123_read (Some \<lparr>fd = 3, worker = 103\<rparr>) (Some 0) 16
         [Interrupted, Interrupted, Completed (Data 5), Completed Eof] initial_world
       = Some (5, initial_world\<lparr>trace := [Read 3, Read 3, Read 3]\<rparr>)"
  using read_guard [where nh = None and buf = "Some 0" and bufsize = 16
      and rs = "[Completed (Data 5)]" and w = initial_world]
    read_guard [where nh = "Some \<lparr>fd = 3, worker = 103\<rparr>" and buf = None and bufsize = 16
      and rs = "[Completed (Data 5)]" and w = initial_world]
    read_guard [where h = "\<lparr>fd = 3, worker = 103\<rparr>" and buf = "Some 0" and bufsize = 16
      and k = 2 and c = "Data 5" and rest = "[Completed Eof]" and w = initial_world]
  by (simp add: initial_world_def numeral_2_eq_2)

text \<open>
  Claim C8. \<^verbatim>\<open>net123_close\<close> does nothing on a null handle. Otherwise, when a worker is
  recorded, it sends \<^verbatim>\<open>SIGKILL\<close> to the worker and waits for it; a failed wait adds only
  a message. In every case it then closes the descriptor if there is one, and frees the
  handle last.
\<close>

theorem close_steps:
  "net123_close param wait_ret None w = w
   \<and> net123_close param wait_ret (Some h) w
       = w\<lparr>fds := (if fd h > - 1 then fds w - {fd h} else fds w),
           trace := trace w
             @ (if worker h \<noteq> 0
                then [Kill (worker h) SIGKILL, Waitpid (worker h)]
                       @ (if wait_ret < 0 then [Log Wait_failed]
                          else if verbose param > 1 then [Log (Note_finished (worker h))]
                          else [])
                else [])
             @ (if fd h > - 1 then [Close (fd h)] else [])
             @ [Free]\<rparr>"
  by (simp add: net123_close_def Let_def emit_def)

text \<open>
  C8 at a handle whose wait fails: the descriptor is closed and the handle freed all the same.
\<close>

theorem close_steps_witness:
  "net123_close par0 (- 1) (Some \<lparr>fd = 3, worker = 103\<rparr>)
       \<lparr>got_curl = 1, got_wget = 0, fds = {0, 1, 2, 3}, trace = []\<rparr>
     = \<lparr>got_curl = 1, got_wget = 0, fds = {0, 1, 2},
        trace = [Kill 103 SIGKILL, Waitpid 103, Log Wait_failed, Close 3, Free]\<rparr>"
  using close_steps [of par0 "- 1" "\<lparr>got_curl = 1, got_wget = 0, fds = {0, 1, 2, 3}, trace = []\<rparr>"
      "\<lparr>fd = 3, worker = 103\<rparr>"]
  by auto

end
